theory Spec2Isabelle
  imports Main "HOL-Library.AList"
begin

section \<open>JavaScript values\<close>

text \<open>
  The library works on untyped JavaScript data (\<^verbatim>\<open>any\<close>).  A value is a primitive, a
  function, an array or an object, or one of the two objects that every plain value
  inherits from: \<^verbatim>\<open>Object.prototype\<close> and \<^verbatim>\<open>Array.prototype\<close>.

  \<^item> An object is its prototype together with the list of its own enumerable
    properties, in the order of their creation.  The prototype is \<^verbatim>\<open>null\<close> or an
    object; an object literal and a spread \<^verbatim>\<open>{ ...v }\<close> have \<^verbatim>\<open>Object.prototype\<close>.  A
    write replaces a property where it stands or appends a new one.
  \<^item> An array has its prototype (\<^verbatim>\<open>Array.prototype\<close> for an array literal and for a
    spread \<^verbatim>\<open>[...v]\<close>), element slots, where \<open>None\<close> is a hole of a sparse array, and,
    as every JavaScript array may, further named properties (those whose key is not
    an array index).  Its \<^verbatim>\<open>length\<close> is the number of slots.
  \<^item> \<^verbatim>\<open>Object.prototype\<close> has the accessor property \<^verbatim>\<open>__proto__\<close> and methods;
    \<^verbatim>\<open>Array.prototype\<close> is an empty array with methods that inherits from
    \<^verbatim>\<open>Object.prototype\<close>.  Which methods there are depends on the version of the host;
    the parameter \<open>h\<close> below names them.  They are not enumerable.
  \<^item> A function is opaque: only its identity is kept.  The properties that a function
    has or inherits are not described, so the theorems speak of values in which no
    function is the prototype of an object (\<open>well_formed\<close> below).
  \<^item> Numbers are the integers; the library never computes with them, it only tests
    them for truthiness.

  Properties are read, tested and written as the host does it: through the prototype
  chain, with the getter and the setter of \<^verbatim>\<open>__proto__\<close>, with index keys, holes and
  the \<^verbatim>\<open>length\<close> of arrays, and with an own or inherited property that stands in the way
  of a method called on the data.  Symbols as keys, accessor properties other than
  \<^verbatim>\<open>__proto__\<close>, properties that are not writable or not enumerable other than those
  of the two prototypes and \<^verbatim>\<open>length\<close>, and the exhaustion of memory or of the call
  stack are outside the data that the library is specified for, and are not described.
\<close>

datatype jsval =
    Undefined
  | Null
  | Bool bool
  | Num int
  | Str string
  | Func nat
  | ObjectPrototype
  | ArrayPrototype
  | Arr jsval "jsval option list" "(string \<times> jsval) list"
  | Obj jsval "(string \<times> jsval) list"

type_synonym props = "(string \<times> jsval) list"

text \<open>The object \<^verbatim>\<open>{k1: v1, ...}\<close> and the array \<^verbatim>\<open>[e1, ...]\<close> as literals create
  them.\<close>

abbreviation object_literal :: "props \<Rightarrow> jsval" where
  "object_literal kvs \<equiv> Obj ObjectPrototype kvs"

abbreviation array_literal :: "jsval list \<Rightarrow> jsval" where
  "array_literal vs \<equiv> Arr ArrayPrototype (map Some vs) []"

text \<open>\<^verbatim>\<open>typeof v === 'object' && v !== null\<close>: arrays and objects.  A function has
  \<^verbatim>\<open>typeof v === 'function'\<close> and is not among them.\<close>

fun is_container :: "jsval \<Rightarrow> bool" where
  "is_container (Arr p es ps) = True"
| "is_container (Obj p kvs) = True"
| "is_container ObjectPrototype = True"
| "is_container ArrayPrototype = True"
| "is_container v = False"

text \<open>\<^verbatim>\<open>Array.isArray(v)\<close>; \<^verbatim>\<open>Array.prototype\<close> is an array.\<close>

fun isArray :: "jsval \<Rightarrow> bool" where
  "isArray (Arr p es ps) = True"
| "isArray ArrayPrototype = True"
| "isArray v = False"

text \<open>\<^verbatim>\<open>typeof v === 'object' && v !== null && !Array.isArray(v)\<close>, the test of \<^verbatim>\<open>merge\<close>.\<close>

definition is_record :: "jsval \<Rightarrow> bool" where
  "is_record v = (is_container v \<and> \<not> isArray v)"

text \<open>Truthiness, as \<^verbatim>\<open>||\<close> tests it.\<close>

fun truthy :: "jsval \<Rightarrow> bool" where
  "truthy Undefined = False"
| "truthy Null = False"
| "truthy (Bool b) = b"
| "truthy (Num n) = (n \<noteq> 0)"
| "truthy (Str s) = (s \<noteq> [])"
| "truthy v = True"

subsection \<open>The host\<close>

text \<open>
  Three things are left to the host and are parameters of the model.

  \<^item> Writing \<^verbatim>\<open>length\<close> converts the value to a number.  For strings, functions,
    arrays and objects the result depends on the host's number parser and on
    \<^verbatim>\<open>valueOf\<close>/\<^verbatim>\<open>toString\<close>: \<open>to_array_length\<close> answers with the new length, with
    \<^verbatim>\<open>RangeError\<close> (\<open>NotALength\<close>) or with \<^verbatim>\<open>TypeError\<close> (\<open>NoPrimitive\<close>).
  \<^item> \<open>object_method\<close> gives the function that \<^verbatim>\<open>Object.prototype\<close> holds under a name
    (\<^verbatim>\<open>hasOwnProperty\<close>, \<^verbatim>\<open>toString\<close>, ...), \<open>None\<close> when it has no method of that
    name.
  \<^item> \<open>array_method\<close> does the same for \<^verbatim>\<open>Array.prototype\<close> (\<^verbatim>\<open>push\<close>, \<^verbatim>\<open>map\<close>, ...).
\<close>

datatype coercion = Length nat | NotALength | NoPrimitive

record host =
  to_array_length :: "jsval \<Rightarrow> coercion"
  object_method :: "string \<Rightarrow> nat option"
  array_method :: "string \<Rightarrow> nat option"

subsection \<open>Array indices\<close>

text \<open>
  A property key of an array is an index when it is the canonical decimal numeral of a
  number below \<open>2^32 - 1\<close>.
\<close>

definition digit_char :: "nat \<Rightarrow> char" where
  "digit_char d = char_of (48 + d)"

fun dec_string :: "nat \<Rightarrow> string" where
  "dec_string n = (if n < 10 then [digit_char n] else dec_string (n div 10) @ [digit_char (n mod 10)])"

definition is_digit :: "char \<Rightarrow> bool" where
  "is_digit c = (48 \<le> (of_char c :: nat) \<and> (of_char c :: nat) \<le> 57)"

definition dec_value :: "string \<Rightarrow> nat" where
  "dec_value s = foldl (\<lambda>n c. 10 * n + (of_char c - 48)) 0 s"

definition array_index :: "string \<Rightarrow> nat option" where
  "array_index s =
     (if s \<noteq> [] \<and> list_all is_digit s \<and> (hd s \<noteq> CHR ''0'' \<or> s = ''0'')
         \<and> dec_value s < 2 ^ 32 - 1
      then Some (dec_value s) else None)"

subsection \<open>Own properties\<close>

text \<open>The own enumerable elements of an array, keyed by their index; holes have none.\<close>

fun indexed :: "nat \<Rightarrow> 'a option list \<Rightarrow> (string \<times> 'a) list" where
  "indexed i [] = []"
| "indexed i (None # es) = indexed (Suc i) es"
| "indexed i (Some v # es) = (dec_string i, v) # indexed (Suc i) es"

fun chars_from :: "nat \<Rightarrow> string \<Rightarrow> props" where
  "chars_from i [] = []"
| "chars_from i (c # cs) = (dec_string i, Str [c]) # chars_from (Suc i) cs"

text \<open>
  The host lists the own properties of an object with the index keys first, in
  ascending order, and the other keys after them in the order of their creation.
\<close>

definition index_keys_first :: "(string \<times> 'a) list \<Rightarrow> (string \<times> 'a) list" where
  "index_keys_first kvs =
     sort_key (\<lambda>kv. the (array_index (fst kv))) (filter (\<lambda>kv. array_index (fst kv) \<noteq> None) kvs)
     @ filter (\<lambda>kv. array_index (fst kv) = None) kvs"

text \<open>
  The own enumerable properties of a value, in the host's order: what the spread
  \<^verbatim>\<open>{ ...v }\<close> copies.  A string spreads into its characters; the other primitives,
  functions and the two prototypes have none.
\<close>

fun own_entries :: "jsval \<Rightarrow> props" where
  "own_entries (Obj p kvs) = index_keys_first kvs"
| "own_entries (Arr p es ps) = indexed 0 es @ ps"
| "own_entries (Str s) = chars_from 0 s"
| "own_entries v = []"

text \<open>
  The value of the own data property \<open>key\<close> of a value, enumerable or not.  An array
  has its elements, its \<^verbatim>\<open>length\<close> and its named properties; a string its characters and
  its \<^verbatim>\<open>length\<close>; the two prototypes have their methods, and \<^verbatim>\<open>Array.prototype\<close> the
  \<^verbatim>\<open>length\<close> \<open>0\<close>.  Keys are strings: a number given as a key is used as its decimal
  numeral.
\<close>

fun own_property :: "host \<Rightarrow> jsval \<Rightarrow> string \<Rightarrow> jsval option" where
  "own_property h (Obj p kvs) key = map_of kvs key"
| "own_property h (Arr p es ps) key =
     (case array_index key of
        Some i \<Rightarrow> (if i < length es then es ! i else None)
      | None \<Rightarrow> if key = ''length'' then Some (Num (int (length es))) else map_of ps key)"
| "own_property h (Str s) key =
     (case array_index key of
        Some i \<Rightarrow> (if i < length s then Some (Str [s ! i]) else None)
      | None \<Rightarrow> if key = ''length'' then Some (Num (int (length s))) else None)"
| "own_property h ObjectPrototype key = map_option Func (object_method h key)"
| "own_property h ArrayPrototype key =
     (if key = ''length'' then Some (Num 0) else map_option Func (array_method h key))"
| "own_property h v key = None"

subsection \<open>The prototype chain\<close>

text \<open>The prototype of an object.\<close>

fun proto_of :: "jsval \<Rightarrow> jsval" where
  "proto_of (Obj p kvs) = p"
| "proto_of (Arr p es ps) = p"
| "proto_of ArrayPrototype = ObjectPrototype"
| "proto_of v = Null"

text \<open>
  What a lookup of \<open>key\<close> finds, starting at an object and going up its prototype
  chain: a data property with its value, the accessor \<^verbatim>\<open>__proto__\<close> of
  \<^verbatim>\<open>Object.prototype\<close>, or nothing.  The chain ends at \<^verbatim>\<open>null\<close>.
\<close>

datatype slot = Data jsval | ProtoAccessor | Missing

definition object_prototype_slot :: "host \<Rightarrow> string \<Rightarrow> slot" where
  "object_prototype_slot h key =
     (if key = ''__proto__'' then ProtoAccessor
      else (case object_method h key of Some f \<Rightarrow> Data (Func f) | None \<Rightarrow> Missing))"

fun find_property :: "host \<Rightarrow> jsval \<Rightarrow> string \<Rightarrow> slot" where
  "find_property h (Obj p kvs) key =
     (case map_of kvs key of Some v \<Rightarrow> Data v | None \<Rightarrow> find_property h p key)"
| "find_property h (Arr p es ps) key =
     (case own_property h (Arr p es ps) key of Some v \<Rightarrow> Data v | None \<Rightarrow> find_property h p key)"
| "find_property h ArrayPrototype key =
     (case own_property h ArrayPrototype key of
        Some v \<Rightarrow> Data v
      | None \<Rightarrow> object_prototype_slot h key)"
| "find_property h ObjectPrototype key = object_prototype_slot h key"
| "find_property h (Str s) key =
     (case own_property h (Str s) key of Some v \<Rightarrow> Data v | None \<Rightarrow> Missing)"
| "find_property h v key = Missing"

text \<open>
  \<^verbatim>\<open>obj[key]\<close>: the value of the data property found, \<^verbatim>\<open>undefined\<close> when there is none.
  The getter of \<^verbatim>\<open>__proto__\<close> answers with the prototype of the object that was asked.
  The library reads properties of arrays and objects, and in \<^verbatim>\<open>merge\<close> characters of a
  string.
\<close>

definition get :: "host \<Rightarrow> jsval \<Rightarrow> string \<Rightarrow> jsval" where
  "get h obj key =
     (case find_property h obj key of
        Data v \<Rightarrow> v
      | ProtoAccessor \<Rightarrow> proto_of obj
      | Missing \<Rightarrow> Undefined)"

text \<open>\<^verbatim>\<open>key in obj\<close> on an object or array: own and inherited properties.\<close>

definition has_property :: "host \<Rightarrow> jsval \<Rightarrow> string \<Rightarrow> bool" where
  "has_property h obj key = (find_property h obj key \<noteq> Missing)"

subsection \<open>Exceptions\<close>

text \<open>
  The library throws \<^verbatim>\<open>new Error(message)\<close>, in \<^verbatim>\<open>set\<close> with the two messages below.
  The host throws \<^verbatim>\<open>RangeError\<close> for a value that is not an array length, and
  \<^verbatim>\<open>TypeError\<close> for a call of what is not a function, for a spread of what cannot be
  iterated, for \<^verbatim>\<open>in\<close> applied to a primitive and for a conversion of what has no
  primitive value.
\<close>

datatype js_error = Error string | RangeError | TypeError

definition InvalidPathError :: js_error where
  "InvalidPathError = Error ''functional: set: Path cannot be empty''"

definition InvalidIntermediateError :: js_error where
  "InvalidIntermediateError = Error ''functional: set: Intermediate value is not an object or array''"

subsection \<open>Writing a property\<close>

text \<open>
  Writing \<^verbatim>\<open>length\<close> converts the value to a number and accepts it when it is an
  integer from \<open>0\<close> to \<open>2^32 - 1\<close>; otherwise the host throws \<^verbatim>\<open>RangeError\<close>.  The
  conversion is fixed for \<^verbatim>\<open>undefined\<close> (not a number), \<^verbatim>\<open>null\<close> (\<open>0\<close>), booleans and
  numbers; the rest is the host's.
\<close>

fun to_length :: "host \<Rightarrow> jsval \<Rightarrow> coercion" where
  "to_length h Undefined = NotALength"
| "to_length h Null = Length 0"
| "to_length h (Bool b) = Length (if b then 1 else 0)"
| "to_length h (Num n) = (if 0 \<le> n \<and> n < 2 ^ 32 then Length (nat n) else NotALength)"
| "to_length h v = to_array_length h v"

text \<open>The setter of \<^verbatim>\<open>__proto__\<close> takes an object (a function is one) or \<^verbatim>\<open>null\<close> as
  the new prototype and ignores every other value.\<close>

fun is_prototype_value :: "jsval \<Rightarrow> bool" where
  "is_prototype_value Null = True"
| "is_prototype_value (Func f) = True"
| "is_prototype_value v = is_container v"

text \<open>
  The write \<^verbatim>\<open>target[key] = v\<close>, where the target is an object or array that the
  library has just created.  The host looks the key up: when the lookup ends at the
  accessor \<^verbatim>\<open>__proto__\<close>, its setter runs and no property is written; in every other
  case the target gets or keeps the own property \<open>key\<close> with the value \<open>v\<close>.  On an
  array an index key fills the slot, extending the array with holes when the index is
  past the end, and \<^verbatim>\<open>length\<close> truncates or extends.
\<close>

fun assign :: "host \<Rightarrow> jsval \<Rightarrow> string \<Rightarrow> jsval \<Rightarrow> js_error + jsval" where
  "assign h (Obj p kvs) key v =
     (if find_property h (Obj p kvs) key = ProtoAccessor
      then Inr (Obj (if is_prototype_value v then v else p) kvs)
      else Inr (Obj p (AList.update key v kvs)))"
| "assign h (Arr p es ps) key v =
     (case array_index key of
        Some i \<Rightarrow>
          Inr (Arr p (if i < length es then es[i := Some v]
                      else es @ replicate (i - length es) None @ [Some v]) ps)
      | None \<Rightarrow>
          if key = ''length'' then
            (case to_length h v of
               Length n \<Rightarrow> Inr (Arr p (take n es @ replicate (n - length es) None) ps)
             | NotALength \<Rightarrow> Inl RangeError
             | NoPrimitive \<Rightarrow> Inl TypeError)
          else if find_property h (Arr p es ps) key = ProtoAccessor
          then Inr (Arr (if is_prototype_value v then v else p) es ps)
          else Inr (Arr p es (AList.update key v ps)))"
| "assign h target key v = Inr target"

section \<open>Object helpers\<close>

subsection \<open>pick and omit\<close>

text \<open>
  \<^verbatim>\<open>
  const object: any = {}
  for (const key of keys) {
    if (key in obj) { object[key] = obj[key] }
  }
  return object
  \<close>
  \<open>pick_loop h obj object keys\<close> is the loop over the keys still to visit.  The host
  throws \<^verbatim>\<open>TypeError\<close> when \<^verbatim>\<open>in\<close> is applied to a primitive.
\<close>

fun is_object :: "jsval \<Rightarrow> bool" where
  "is_object (Func f) = True"
| "is_object v = is_container v"

fun pick_loop :: "host \<Rightarrow> jsval \<Rightarrow> jsval \<Rightarrow> string list \<Rightarrow> js_error + jsval" where
  "pick_loop h obj object [] = Inr object"
| "pick_loop h obj object (key # keys) =
     (if \<not> is_object obj then Inl TypeError
      else if has_property h obj key then
        (case assign h object key (get h obj key) of
           Inl e \<Rightarrow> Inl e
         | Inr object' \<Rightarrow> pick_loop h obj object' keys)
      else pick_loop h obj object keys)"

definition pick :: "host \<Rightarrow> jsval \<Rightarrow> string list \<Rightarrow> js_error + jsval" where
  "pick h obj keys = pick_loop h obj (object_literal []) keys"

text \<open>
  \<^verbatim>\<open>
  const object = { ...candidate }
  for (const key of keys) {
    if (key in object) { delete object[key] }
  }
  return object
  \<close>
  \<^verbatim>\<open>delete\<close> removes an own property and leaves an inherited one where it is.
\<close>

definition omit :: "host \<Rightarrow> jsval \<Rightarrow> string list \<Rightarrow> jsval" where
  "omit h candidate keys =
     object_literal
       (fold (\<lambda>key object. if has_property h (object_literal object) key
                               then AList.delete key object else object)
          keys (own_entries candidate))"

subsection \<open>merge\<close>

text \<open>
  \<^verbatim>\<open>
  const result: any = { ...a }
  for (const key in b) {
    if (b.hasOwnProperty(key)) {
      if (typeof b[key] === 'object' && b[key] !== null && !Array.isArray(b[key])) {
        result[key] = merge(result[key] || {}, b[key])
      } else {
        result[key] = b[key]
      }
    }
  }
  return result
  \<close>
  \<^verbatim>\<open>for (key in b)\<close> visits the enumerable properties of \<open>b\<close>, its own ones first and
  then those of its prototypes, each name once; a name that an object nearer to \<open>b\<close>
  has, enumerable or not, is not visited again.  \<open>for_in_keys b seen\<close> lists them,
  \<open>seen\<close> being the names already met.
\<close>

fun for_in_keys :: "jsval \<Rightarrow> string list \<Rightarrow> string list" where
  "for_in_keys (Obj p kvs) seen =
     filter (\<lambda>k. k \<notin> set seen) (map fst (index_keys_first kvs))
     @ for_in_keys p (seen @ map fst kvs)"
| "for_in_keys (Arr p es ps) seen =
     filter (\<lambda>k. k \<notin> set seen) (map fst (indexed 0 es @ ps))
     @ for_in_keys p (seen @ map fst (indexed 0 es @ ps) @ [''length''])"
| "for_in_keys (Str s) seen = filter (\<lambda>k. k \<notin> set seen) (map fst (chars_from 0 s))"
| "for_in_keys v seen = []"

text \<open>
  The test \<^verbatim>\<open>b.hasOwnProperty(key)\<close> is a method call on the data: the host looks the
  property \<^verbatim>\<open>hasOwnProperty\<close> up on \<open>b\<close> and calls what it finds.  When the lookup
  reaches \<^verbatim>\<open>Object.prototype\<close> it finds the built-in method, which says whether \<open>key\<close>
  is an own property of \<open>b\<close>.  When \<open>b\<close> has, or inherits from another object, a
  property of that name, its value is called: a function stored there runs (the
  parameter \<open>call\<close> gives its result for the function, the receiver and the argument; it
  is taken to have no effect beyond its result or exception), and any other value is
  not callable, so the host throws \<^verbatim>\<open>TypeError\<close>.  A string finds the built-in method.
\<close>

type_synonym caller = "nat \<Rightarrow> jsval \<Rightarrow> string \<Rightarrow> js_error + jsval"

definition has_own_property :: "host \<Rightarrow> jsval \<Rightarrow> string \<Rightarrow> bool" where
  "has_own_property h b key =
     (own_property h b key \<noteq> None \<or> (b = ObjectPrototype \<and> key = ''__proto__''))"

definition call_hasOwnProperty :: "host \<Rightarrow> caller \<Rightarrow> jsval \<Rightarrow> string \<Rightarrow> js_error + bool" where
  "call_hasOwnProperty h call b key =
     (case (case b of Str s \<Rightarrow> object_prototype_slot h ''hasOwnProperty''
                    | _ \<Rightarrow> find_property h b ''hasOwnProperty'') of
        Data method \<Rightarrow>
          (case method of
             Func f \<Rightarrow>
               if object_method h ''hasOwnProperty'' = Some f then Inr (has_own_property h b key)
               else (case call f b key of Inl e \<Rightarrow> Inl e | Inr v \<Rightarrow> Inr (truthy v))
           | _ \<Rightarrow> Inl TypeError)
      | _ \<Rightarrow> Inl TypeError)"

text \<open>\<open>or_empty v\<close> is \<^verbatim>\<open>v || {}\<close>.  \<open>merge_loop h call result b keys\<close> is the loop over the
  keys that \<^verbatim>\<open>for (key in b)\<close> still has to visit.  By its type \<open>b\<close> is an object; the
  first argument of a recursive call may be any truthy value, which the spread turns
  into a plain object.\<close>

definition or_empty :: "jsval \<Rightarrow> jsval" where
  "or_empty v = (if truthy v then v else object_literal [])"

text \<open>The measure by which the recursion of \<^verbatim>\<open>merge\<close> ends: the second argument gets
  smaller.\<close>

definition weight :: "jsval \<Rightarrow> nat" where
  "weight v = size v + (if v = ArrayPrototype then 1 else 0)"

function merge :: "host \<Rightarrow> caller \<Rightarrow> jsval \<Rightarrow> jsval \<Rightarrow> js_error + jsval"
  and merge_loop :: "host \<Rightarrow> caller \<Rightarrow> jsval \<Rightarrow> jsval \<Rightarrow> string list \<Rightarrow> js_error + jsval" where
  "merge h call a b = merge_loop h call (object_literal (own_entries a)) b (for_in_keys b [])"
| "merge_loop h call result b [] = Inr result"
| "merge_loop h call result b (key # keys) =
     (case call_hasOwnProperty h call b key of
        Inl e \<Rightarrow> Inl e
      | Inr False \<Rightarrow> merge_loop h call result b keys
      | Inr True \<Rightarrow>
          if is_record (get h b key) then
            (case merge h call (or_empty (get h result key)) (get h b key) of
               Inl e \<Rightarrow> Inl e
             | Inr merged \<Rightarrow>
                 (case assign h result key merged of
                    Inl e \<Rightarrow> Inl e
                  | Inr result' \<Rightarrow> merge_loop h call result' b keys))
          else
            (case assign h result key (get h b key) of
               Inl e \<Rightarrow> Inl e
             | Inr result' \<Rightarrow> merge_loop h call result' b keys))"
  by pat_completeness auto
termination
proof -
  have own_value:
    "(key, v) \<in> set kvs \<Longrightarrow> size v < size (Obj p kvs)"
    "(key, v) \<in> set ps \<Longrightarrow> size v < size (Arr p es ps)"
    "Some v \<in> set es \<Longrightarrow> size v < size (Arr p es ps)" for key v kvs p ps es
  proof -
    show "(key, v) \<in> set kvs \<Longrightarrow> size v < size (Obj p kvs)" by (induction kvs) auto
    show "(key, v) \<in> set ps \<Longrightarrow> size v < size (Arr p es ps)" by (induction ps) auto
    show "Some v \<in> set es \<Longrightarrow> size v < size (Arr p es ps)" by (induction es) auto
  qed
  have found: "find_property h b key = Data v \<Longrightarrow> is_record v \<Longrightarrow> size v < size b" for h b key v
  proof (induction h b key rule: find_property.induct)
    case (1 h p kvs key)
    show ?case
    proof (cases "map_of kvs key")
      case None
      with 1 have "size v < size p" by simp
      then show ?thesis by simp
    next
      case (Some w)
      with 1 have "(key, v) \<in> set kvs" by (auto dest: map_of_SomeD)
      then show ?thesis by (rule own_value)
    qed
  next
    case (2 h p es ps key)
    show ?case
    proof (cases "own_property h (Arr p es ps) key")
      case None
      with 2 have "size v < size p" by simp
      then show ?thesis by simp
    next
      case (Some w)
      with 2 have own: "own_property h (Arr p es ps) key = Some v" by simp
      show ?thesis
      proof (cases "array_index key")
        case None
        with own "2.prems" have "(key, v) \<in> set ps"
          by (auto simp: is_record_def dest: map_of_SomeD split: if_splits)
        then show ?thesis by (rule own_value)
      next
        case (Some i)
        with own have "i < length es" "es ! i = Some v" by (auto split: if_splits)
        then have "Some v \<in> set es" by (metis nth_mem)
        then show ?thesis by (rule own_value)
      qed
    qed
  qed (auto simp: is_record_def object_prototype_slot_def split: option.splits if_splits)
  have smaller: "weight (get h b key) < weight b" if rec: "is_record (get h b key)" for h b key
  proof (cases "find_property h b key")
    case (Data v)
    with rec have "is_record v" "get h b key = v" by (auto simp: get_def)
    with Data found [of h b key v] show ?thesis by (auto simp: weight_def is_record_def)
  next
    case ProtoAccessor
    with rec show ?thesis by (cases b) (auto simp: get_def weight_def is_record_def)
  next
    case Missing
    with rec show ?thesis by (simp add: get_def is_record_def)
  qed
  show ?thesis
    by (relation "measures
          [\<lambda>x. case x of Inl (h, call, a, b) \<Rightarrow> weight b
                       | Inr (h, call, result, b, keys) \<Rightarrow> weight b,
           \<lambda>x. case x of Inl (h, call, a, b) \<Rightarrow> Suc (length (for_in_keys b []))
                        | Inr (h, call, result, b, keys) \<Rightarrow> length keys]")
      (auto simp: smaller)
qed

text \<open>The equation of \<open>merge\<close> is unfolded on request only.\<close>

declare merge.simps [simp del]

subsection \<open>set\<close>

text \<open>\<^verbatim>\<open>path.split('.')\<close>: the segments between the dots, empty ones included.\<close>

fun split_dot :: "string \<Rightarrow> string list" where
  "split_dot [] = [[]]"
| "split_dot (c # cs) =
     (if c = CHR ''.'' then [] # split_dot cs
      else (case split_dot cs of s # ss \<Rightarrow> (c # s) # ss | [] \<Rightarrow> [[c]]))"

text \<open>
  \<^verbatim>\<open>Array.isArray(current) ? [...current] : { ...current }\<close>.

  The spread \<^verbatim>\<open>[...current]\<close> asks \<open>current\<close> for its iterator, a method that arrays
  inherit from \<^verbatim>\<open>Array.prototype\<close>; an array whose prototype chain does not lead there
  has none, and the host throws \<^verbatim>\<open>TypeError\<close>.  The iterator reads the elements from
  \<open>0\<close> up to the length: a hole reads through the prototype chain, as \<^verbatim>\<open>undefined\<close>
  when nothing is found there.  The named properties are left behind.
\<close>

fun inherits_array_prototype :: "jsval \<Rightarrow> bool" where
  "inherits_array_prototype (Obj p kvs) = inherits_array_prototype p"
| "inherits_array_prototype (Arr p es ps) = inherits_array_prototype p"
| "inherits_array_prototype ArrayPrototype = True"
| "inherits_array_prototype v = False"

fun elements_from :: "host \<Rightarrow> jsval \<Rightarrow> nat \<Rightarrow> jsval option list \<Rightarrow> jsval list" where
  "elements_from h p i [] = []"
| "elements_from h p i (Some v # es) = v # elements_from h p (Suc i) es"
| "elements_from h p i (None # es) = get h p (dec_string i) # elements_from h p (Suc i) es"

fun iterate :: "host \<Rightarrow> jsval \<Rightarrow> jsval list" where
  "iterate h (Arr p es ps) = elements_from h p 0 es"
| "iterate h v = []"

definition shallow_copy :: "host \<Rightarrow> jsval \<Rightarrow> js_error + jsval" where
  "shallow_copy h current =
     (if isArray current then
        (if inherits_array_prototype current then Inr (array_literal (iterate h current))
         else Inl TypeError)
      else Inr (object_literal (own_entries current)))"

text \<open>
  \<^verbatim>\<open>
  const recursor = (current, keys, value) => {
    if (keys.length === 0) return value
    const [firstKey, ...remainingKeys] = keys
    if (typeof current !== 'object' || current === null) {
      throw new Error('functional: set: Intermediate value is not an object or array')
    }
    const updated = Array.isArray(current) ? [...current] : { ...current }
    updated[firstKey] = recursor(current[firstKey], remainingKeys, value)
    return updated
  }
  \<close>
\<close>

fun recursor :: "host \<Rightarrow> jsval \<Rightarrow> string list \<Rightarrow> jsval \<Rightarrow> js_error + jsval" where
  "recursor h current [] value = Inr value"
| "recursor h current (firstKey # remainingKeys) value =
     (if \<not> is_container current then Inl InvalidIntermediateError
      else (case shallow_copy h current of
              Inl e \<Rightarrow> Inl e
            | Inr updated \<Rightarrow>
                (case recursor h (get h current firstKey) remainingKeys value of
                   Inl e \<Rightarrow> Inl e
                 | Inr x \<Rightarrow> assign h updated firstKey x)))"

text \<open>
  \<^verbatim>\<open>
  if (path === '') { throw new Error('functional: set: Path cannot be empty') }
  const keys = path.split('.')
  return recursor(obj, keys, value)
  \<close>
\<close>

definition set_path :: "host \<Rightarrow> string \<Rightarrow> jsval \<Rightarrow> jsval \<Rightarrow> js_error + jsval" where
  "set_path h path obj value =
     (if path = [] then Inl InvalidPathError else recursor h obj (split_dot path) value)"

section \<open>Notions used to state the properties\<close>

text \<open>
  Well-formed values: every prototype is \<^verbatim>\<open>null\<close>, an array, an object or one of the
  two built-in prototypes (not a function); no object has a key twice; the named
  properties of an array are neither indices nor \<^verbatim>\<open>length\<close>.  The Records and Sequences
  of plain data are well-formed.
\<close>

fun well_formed :: "jsval \<Rightarrow> bool" where
  "well_formed (Obj p kvs) =
     ((p = Null \<or> is_container p) \<and> well_formed p
      \<and> distinct (map fst kvs) \<and> (\<forall>v \<in> snd ` set kvs. well_formed v))"
| "well_formed (Arr p es ps) =
     ((p = Null \<or> is_container p) \<and> well_formed p
      \<and> distinct (map fst ps)
      \<and> (\<forall>k \<in> fst ` set ps. array_index k = None \<and> k \<noteq> ''length'')
      \<and> (\<forall>v \<in> snd ` set ps. well_formed v)
      \<and> (\<forall>e \<in> set es. case e of None \<Rightarrow> True | Some v \<Rightarrow> well_formed v))"
| "well_formed v = True"

text \<open>Reading along a list of segments: \<^verbatim>\<open>root[k1][k2]...\<close>, through containers.\<close>

fun read_path :: "host \<Rightarrow> jsval \<Rightarrow> string list \<Rightarrow> jsval option" where
  "read_path h v [] = Some v"
| "read_path h v (k # ks) = (if is_container v then read_path h (get h v k) ks else None)"

text \<open>
  \<open>blocked h root ks\<close>: walking from \<open>root\<close> along \<open>ks\<close>, some value that still has a
  segment to be applied to it (the root, or the value reached by a segment that is not
  the last) is not an array or object.
\<close>

definition blocked :: "host \<Rightarrow> jsval \<Rightarrow> string list \<Rightarrow> bool" where
  "blocked h root ks =
     (\<exists>i < length ks. case read_path h root (take i ks) of
                         Some c \<Rightarrow> \<not> is_container c | None \<Rightarrow> False)"

text \<open>
  \<open>unspreadable c\<close>: \<open>c\<close> is an array that does not inherit from \<^verbatim>\<open>Array.prototype\<close>,
  so that \<^verbatim>\<open>[...c]\<close> throws.  \<open>uncopyable h root ks\<close>: walking from \<open>root\<close> along \<open>ks\<close>,
  some value that still has a segment to be applied to it is such an array.
\<close>

definition unspreadable :: "jsval \<Rightarrow> bool" where
  "unspreadable c = (isArray c \<and> \<not> inherits_array_prototype c)"

definition uncopyable :: "host \<Rightarrow> jsval \<Rightarrow> string list \<Rightarrow> bool" where
  "uncopyable h root ks =
     (\<exists>i < length ks. case read_path h root (take i ks) of
                         Some c \<Rightarrow> unspreadable c | None \<Rightarrow> False)"

text \<open>\<open>writes_length h root ks\<close>: the last segment is \<^verbatim>\<open>length\<close> and its parent is an
  array.\<close>

definition writes_length :: "host \<Rightarrow> jsval \<Rightarrow> string list \<Rightarrow> bool" where
  "writes_length h root ks =
     (ks \<noteq> [] \<and> last ks = ''length''
      \<and> (case read_path h root (butlast ks) of Some c \<Rightarrow> isArray c | None \<Rightarrow> False))"

text \<open>
  Plain data: every object has the prototype \<^verbatim>\<open>Object.prototype\<close> and every array the
  prototype \<^verbatim>\<open>Array.prototype\<close>, as literals and \<^verbatim>\<open>JSON.parse\<close> make them.
\<close>

fun plain :: "jsval \<Rightarrow> bool" where
  "plain (Obj p kvs) = (p = ObjectPrototype \<and> (\<forall>v \<in> snd ` set kvs. plain v))"
| "plain (Arr p es ps) =
     (p = ArrayPrototype \<and> (\<forall>v \<in> snd ` set ps. plain v)
      \<and> (\<forall>e \<in> set es. case e of None \<Rightarrow> True | Some v \<Rightarrow> plain v))"
| "plain v = True"



text \<open>
  A host for the examples, with the methods of \<^verbatim>\<open>Object.prototype\<close> and of
  \<^verbatim>\<open>Array.prototype\<close> that ECMAScript 2023 defines; the examples write no string,
  function, array or object to \<^verbatim>\<open>length\<close>, so its conversion is never used.  The caller
  of the examples is one in which every function returns \<^verbatim>\<open>undefined\<close>.
\<close>

definition example_host :: host where
  "example_host =
     \<lparr> to_array_length = (\<lambda>v. NotALength),
       object_method = map_of
         [(''constructor'', 0), (''hasOwnProperty'', 1), (''isPrototypeOf'', 2),
          (''propertyIsEnumerable'', 3), (''toLocaleString'', 4), (''toString'', 5),
          (''valueOf'', 6), (''__defineGetter__'', 7), (''__defineSetter__'', 8),
          (''__lookupGetter__'', 9), (''__lookupSetter__'', 10)],
       array_method = map_of
         [(''constructor'', 11), (''at'', 12), (''concat'', 13), (''copyWithin'', 14),
          (''entries'', 15), (''every'', 16), (''fill'', 17), (''filter'', 18),
          (''find'', 19), (''findIndex'', 20), (''findLast'', 21),
          (''findLastIndex'', 22), (''flat'', 23), (''flatMap'', 24),
          (''forEach'', 25), (''includes'', 26), (''indexOf'', 27), (''join'', 28),
          (''keys'', 29), (''lastIndexOf'', 30), (''map'', 31), (''pop'', 32),
          (''push'', 33), (''reduce'', 34), (''reduceRight'', 35), (''reverse'', 36),
          (''shift'', 37), (''slice'', 38), (''some'', 39), (''sort'', 40),
          (''splice'', 41), (''toLocaleString'', 42), (''toReversed'', 43),
          (''toSorted'', 44), (''toSpliced'', 45), (''toString'', 46),
          (''unshift'', 47), (''values'', 48), (''with'', 49)] \<rparr>"

definition example_caller :: caller where
  "example_caller f this key = Inr Undefined"

section \<open>The same functions on a store\<close>

text \<open>
  The values above are trees, so they cannot show whether a call changes an object that
  the caller still holds.  Here objects and arrays live in a store, a value refers to
  them by address, and a write changes a cell of the store.  \<^verbatim>\<open>set\<close> and \<^verbatim>\<open>merge\<close> are
  translated again, statement by statement, with every allocation (\<^verbatim>\<open>{ ...a }\<close>,
  \<^verbatim>\<open>[...current]\<close>, \<^verbatim>\<open>{}\<close>) and every write (\<^verbatim>\<open>updated[firstKey] = ...\<close>,
  \<^verbatim>\<open>result[key] = ...\<close>) explicit.  A new cell gets the next free address, the length
  of the store.

  A cell holds the own properties of its object, and a read finds own properties.  What
  a read finds decides which value a call computes and whether it throws; it does not
  decide where the call writes: each of the two writes of the source goes to the
  object that the same call has created just before (\<^verbatim>\<open>updated\<close>, \<^verbatim>\<open>result\<close>), also
  when the key is \<^verbatim>\<open>__proto__\<close> and the write sets the prototype of that object.  The
  property of this section, that no cell of the caller is written, is stated for every
  outcome of a call.
\<close>

type_synonym addr = nat

datatype sval =
    SUndefined
  | SNull
  | SBool bool
  | SNum int
  | SStr string
  | SFunc nat
  | SRef addr

type_synonym sprops = "(string \<times> sval) list"

datatype cell = CArr "sval option list" sprops | CObj sprops

type_synonym store = "cell list"

text \<open>The cell behind a value: \<open>Some\<close> exactly for a value with
  \<^verbatim>\<open>typeof v === 'object' && v !== null\<close>.\<close>

fun deref :: "store \<Rightarrow> sval \<Rightarrow> cell option" where
  "deref st (SRef a) = (if a < length st then Some (st ! a) else None)"
| "deref st v = None"

fun truthy_st :: "sval \<Rightarrow> bool" where
  "truthy_st SUndefined = False"
| "truthy_st SNull = False"
| "truthy_st (SBool b) = b"
| "truthy_st (SNum n) = (n \<noteq> 0)"
| "truthy_st (SStr s) = (s \<noteq> [])"
| "truthy_st v = True"

fun chars_from_st :: "nat \<Rightarrow> string \<Rightarrow> sprops" where
  "chars_from_st i [] = []"
| "chars_from_st i (c # cs) = (dec_string i, SStr [c]) # chars_from_st (Suc i) cs"

fun cell_entries :: "cell \<Rightarrow> sprops" where
  "cell_entries (CObj kvs) = kvs"
| "cell_entries (CArr es ps) = indexed 0 es @ ps"

fun own_entries_st :: "store \<Rightarrow> sval \<Rightarrow> sprops" where
  "own_entries_st st (SRef a) = (if a < length st then cell_entries (st ! a) else [])"
| "own_entries_st st (SStr s) = chars_from_st 0 s"
| "own_entries_st st v = []"

definition lookup_st :: "sprops \<Rightarrow> string \<Rightarrow> sval" where
  "lookup_st kvs key = (case map_of kvs key of Some v \<Rightarrow> v | None \<Rightarrow> SUndefined)"

fun cell_get :: "cell \<Rightarrow> string \<Rightarrow> sval" where
  "cell_get (CObj kvs) key = lookup_st kvs key"
| "cell_get (CArr es ps) key =
     (case array_index key of
        Some i \<Rightarrow> (if i < length es then (case es ! i of Some v \<Rightarrow> v | None \<Rightarrow> SUndefined)
                   else SUndefined)
      | None \<Rightarrow> if key = ''length'' then SNum (int (length es)) else lookup_st ps key)"

fun cell_has :: "cell \<Rightarrow> string \<Rightarrow> bool" where
  "cell_has (CObj kvs) key = (map_of kvs key \<noteq> None)"
| "cell_has (CArr es ps) key =
     (case array_index key of
        Some i \<Rightarrow> i < length es \<and> es ! i \<noteq> None
      | None \<Rightarrow> key = ''length'' \<or> map_of ps key \<noteq> None)"

text \<open>Whether \<open>b\<close> has the own property \<open>key\<close>, and \<^verbatim>\<open>b[key]\<close>, for a value \<open>b\<close>.\<close>

definition has_own_st :: "store \<Rightarrow> sval \<Rightarrow> string \<Rightarrow> bool" where
  "has_own_st st b key = (case deref st b of Some c \<Rightarrow> cell_has c key | None \<Rightarrow> False)"

definition get_st :: "store \<Rightarrow> sval \<Rightarrow> string \<Rightarrow> sval" where
  "get_st st b key = (case deref st b of Some c \<Rightarrow> cell_get c key | None \<Rightarrow> SUndefined)"

fun cell_copy :: "cell \<Rightarrow> cell" where
  "cell_copy (CArr es ps) = CArr (map (\<lambda>e. Some (case e of Some v \<Rightarrow> v | None \<Rightarrow> SUndefined)) es) []"
| "cell_copy (CObj kvs) = CObj kvs"

type_synonym host_st = "store \<Rightarrow> sval \<Rightarrow> coercion"

fun to_length_st :: "host_st \<Rightarrow> store \<Rightarrow> sval \<Rightarrow> coercion" where
  "to_length_st h st SUndefined = NotALength"
| "to_length_st h st SNull = Length 0"
| "to_length_st h st (SBool b) = Length (if b then 1 else 0)"
| "to_length_st h st (SNum n) = (if 0 \<le> n \<and> n < 2 ^ 32 then Length (nat n) else NotALength)"
| "to_length_st h st v = h st v"

fun cell_assign :: "host_st \<Rightarrow> store \<Rightarrow> cell \<Rightarrow> string \<Rightarrow> sval \<Rightarrow> js_error + cell" where
  "cell_assign h st (CObj kvs) key v = Inr (CObj (AList.update key v kvs))"
| "cell_assign h st (CArr es ps) key v =
     (case array_index key of
        Some i \<Rightarrow>
          Inr (CArr (if i < length es then es[i := Some v]
                     else es @ replicate (i - length es) None @ [Some v]) ps)
      | None \<Rightarrow>
          if key = ''length'' then
            (case to_length_st h st v of
               Length n \<Rightarrow> Inr (CArr (take n es @ replicate (n - length es) None) ps)
             | NotALength \<Rightarrow> Inl RangeError
             | NoPrimitive \<Rightarrow> Inl TypeError)
          else Inr (CArr es (AList.update key v ps)))"

text \<open>
  The recursion of \<^verbatim>\<open>set\<close>.  \<open>updated\<close> is the address of the copy; the write
  \<^verbatim>\<open>updated[firstKey] = ...\<close> replaces the cell at that address.  The store is returned
  also when the call throws.
\<close>

fun recursor_st ::
  "host_st \<Rightarrow> store \<Rightarrow> sval \<Rightarrow> string list \<Rightarrow> sval \<Rightarrow> (js_error + sval) \<times> store" where
  "recursor_st h st current [] value = (Inr value, st)"
| "recursor_st h st current (firstKey # remainingKeys) value =
     (case deref st current of
        None \<Rightarrow> (Inl InvalidIntermediateError, st)
      | Some c \<Rightarrow>
          (let updated = length st;
               st1 = st @ [cell_copy c]
           in case recursor_st h st1 (get_st st1 current firstKey) remainingKeys value of
                (Inl e, st2) \<Rightarrow> (Inl e, st2)
              | (Inr x, st2) \<Rightarrow>
                  (case cell_assign h st2 (st2 ! updated) firstKey x of
                     Inl e \<Rightarrow> (Inl e, st2)
                   | Inr c' \<Rightarrow> (Inr (SRef updated), st2[updated := c']))))"

definition set_st ::
  "host_st \<Rightarrow> store \<Rightarrow> string \<Rightarrow> sval \<Rightarrow> sval \<Rightarrow> (js_error + sval) \<times> store" where
  "set_st h st path obj value =
     (if path = [] then (Inl InvalidPathError, st)
      else recursor_st h st obj (split_dot path) value)"

text \<open>
  \<^verbatim>\<open>merge\<close> recurses on the objects it finds in the store, which may be nested without
  bound or cyclic; then the recursion of the source does not end.  The model counts
  the depth of the calls down from \<open>fuel\<close> and answers \<open>OutOfFuel\<close> when it is used up.
  \<open>merge_loop_st\<close> is the \<^verbatim>\<open>for\<close> loop over the keys that \<open>b\<close> had when the loop began;
  \<open>result\<close> is the address of the new object.  A function stored under
  \<^verbatim>\<open>hasOwnProperty\<close> is called through the parameter \<open>call\<close>, which sees the store and
  is taken not to write to it.
\<close>

datatype 'a outcome = Returned 'a | Threw js_error | OutOfFuel

type_synonym caller_st = "nat \<Rightarrow> store \<Rightarrow> sval \<Rightarrow> string \<Rightarrow> js_error + sval"

definition call_hasOwnProperty_st :: "caller_st \<Rightarrow> store \<Rightarrow> sval \<Rightarrow> string \<Rightarrow> js_error + bool" where
  "call_hasOwnProperty_st call st b key =
     (if has_own_st st b ''hasOwnProperty'' then
        (case get_st st b ''hasOwnProperty'' of
           SFunc f \<Rightarrow> (case call f st b key of Inl e \<Rightarrow> Inl e | Inr v \<Rightarrow> Inr (truthy_st v))
         | _ \<Rightarrow> Inl TypeError)
      else Inr (has_own_st st b key))"

fun merge_st :: "caller_st \<Rightarrow> nat \<Rightarrow> store \<Rightarrow> sval \<Rightarrow> sval \<Rightarrow> sval outcome \<times> store"
  and merge_loop_st ::
    "caller_st \<Rightarrow> nat \<Rightarrow> store \<Rightarrow> addr \<Rightarrow> sval \<Rightarrow> string list \<Rightarrow> unit outcome \<times> store" where
  "merge_st call 0 st a b = (OutOfFuel, st)"
| "merge_st call (Suc fuel) st a b =
     (let result = length st;
          st1 = st @ [CObj (own_entries_st st a)]
      in case merge_loop_st call fuel st1 result b (map fst (own_entries_st st1 b)) of
           (Returned u, st2) \<Rightarrow> (Returned (SRef result), st2)
         | (Threw e, st2) \<Rightarrow> (Threw e, st2)
         | (OutOfFuel, st2) \<Rightarrow> (OutOfFuel, st2))"
| "merge_loop_st call fuel st result b [] = (Returned (), st)"
| "merge_loop_st call fuel st result b (key # keys) =
     (case call_hasOwnProperty_st call st b key of
        Inl e \<Rightarrow> (Threw e, st)
      | Inr False \<Rightarrow> merge_loop_st call fuel st result b keys
      | Inr True \<Rightarrow>
          (case deref st (get_st st b key) of
             Some (CObj kvs) \<Rightarrow>
               (let cur = cell_get (st ! result) key;
                    (arg, st1) = (if truthy_st cur then (cur, st)
                                  else (SRef (length st), st @ [CObj []]))
                in case merge_st call fuel st1 arg (get_st st1 b key) of
                     (Returned r, st2) \<Rightarrow>
                       merge_loop_st call fuel
                         (st2[result := CObj (AList.update key r (cell_entries (st2 ! result)))])
                         result b keys
                   | (Threw e, st2) \<Rightarrow> (Threw e, st2)
                   | (OutOfFuel, st2) \<Rightarrow> (OutOfFuel, st2))
           | _ \<Rightarrow>
               merge_loop_st call fuel
                 (st[result := CObj (AList.update key (get_st st b key) (cell_entries (st ! result)))])
                 result b keys))"

text \<open>
  The snapshot of a value: the tree that a deep comparison sees from it, read from the
  store down to the given depth (\<open>None\<close> when the structure is deeper, or cyclic).
\<close>

fun snapshot :: "nat \<Rightarrow> store \<Rightarrow> sval \<Rightarrow> jsval option" where
  "snapshot n st SUndefined = Some Undefined"
| "snapshot n st SNull = Some Null"
| "snapshot n st (SBool b) = Some (Bool b)"
| "snapshot n st (SNum i) = Some (Num i)"
| "snapshot n st (SStr s) = Some (Str s)"
| "snapshot n st (SFunc f) = Some (Func f)"
| "snapshot 0 st (SRef a) = None"
| "snapshot (Suc n) st (SRef a) =
     (if a < length st then
        (case st ! a of
           CObj kvs \<Rightarrow>
             map_option (Obj ObjectPrototype) (those (map (\<lambda>(k, v). map_option (Pair k) (snapshot n st v)) kvs))
         | CArr es ps \<Rightarrow>
             (case (those (map (\<lambda>e. case e of None \<Rightarrow> Some None
                                     | Some v \<Rightarrow> map_option Some (snapshot n st v)) es),
                    those (map (\<lambda>(k, v). map_option (Pair k) (snapshot n st v)) ps)) of
                (Some es', Some ps') \<Rightarrow> Some (Arr ArrayPrototype es' ps')
              | _ \<Rightarrow> None))
      else None)"

text \<open>The values held by a cell; a value is in the store when it is not a dangling
  reference; a store is closed when its cells hold only values in the store.\<close>

fun cell_values :: "cell \<Rightarrow> sval set" where
  "cell_values (CObj kvs) = snd ` set kvs"
| "cell_values (CArr es ps) = {v. Some v \<in> set es} \<union> snd ` set ps"

fun in_store :: "store \<Rightarrow> sval \<Rightarrow> bool" where
  "in_store st (SRef a) = (a < length st)"
| "in_store st v = True"

definition closed :: "store \<Rightarrow> bool" where
  "closed st = (\<forall>c \<in> set st. \<forall>v \<in> cell_values c. in_store st v)"

text \<open>\<open>unchanged st st'\<close>: every cell of \<open>st\<close> is still there in \<open>st'\<close>, with the same
  content.\<close>

definition unchanged :: "store \<Rightarrow> store \<Rightarrow> bool" where
  "unchanged st st' = (length st \<le> length st' \<and> (\<forall>a < length st. st' ! a = st ! a))"

text \<open>\<open>unchanged_except r st st'\<close>: the same, but for the cell at \<open>r\<close>.\<close>

definition unchanged_except :: "addr \<Rightarrow> store \<Rightarrow> store \<Rightarrow> bool" where
  "unchanged_except r st st' =
     (length st \<le> length st' \<and> (\<forall>a < length st. a \<noteq> r \<longrightarrow> st' ! a = st ! a))"

definition example_host_st :: host_st where
  "example_host_st st v = NotALength"

definition example_caller_st :: caller_st where
  "example_caller_st f st this key = Inr SUndefined"

section \<open>Facts about the helpers\<close>

lemma array_index_length: "array_index ''length'' = None"
  by (simp add: array_index_def is_digit_def)

lemma array_index_proto: "array_index ''__proto__'' = None"
  by (simp add: array_index_def is_digit_def)

lemma accessor_key: "find_property h v key = ProtoAccessor \<Longrightarrow> key = ''__proto__''"
  by (induction h v key rule: find_property.induct)
    (auto simp: object_prototype_slot_def split: option.splits if_splits)


lemma get_length_not_container: "isArray c \<Longrightarrow> \<not> is_container (get h c ''length'')"
  by (cases c) (simp_all add: get_def array_index_length)

lemma isArray_container: "isArray c \<Longrightarrow> is_container c"
  by (cases c) simp_all

subsection \<open>Paths\<close>

lemma split_dot_nonempty: "split_dot s \<noteq> []"
  by (induction s) (auto split: list.splits)






lemma read_path_append:
  "read_path h v (xs @ ys) = (case read_path h v xs of None \<Rightarrow> None | Some c \<Rightarrow> read_path h c ys)"
  by (induction xs arbitrary: v) auto

lemma blocked_Nil: "\<not> blocked h root []"
  by (simp add: blocked_def)

lemma uncopyable_Nil: "\<not> uncopyable h root []"
  by (simp add: uncopyable_def)

lemma reached_Cons:
  "(\<exists>i < length (k # ks). case read_path h root (take i (k # ks)) of Some c \<Rightarrow> P c | None \<Rightarrow> False)
   \<longleftrightarrow> P root \<or> (is_container root
        \<and> (\<exists>i < length ks. case read_path h (get h root k) (take i ks) of Some c \<Rightarrow> P c | None \<Rightarrow> False))"
proof
  assume "\<exists>i < length (k # ks). case read_path h root (take i (k # ks)) of Some c \<Rightarrow> P c | None \<Rightarrow> False"
  then obtain i where i: "i < Suc (length ks)"
    and c: "case read_path h root (take i (k # ks)) of Some c \<Rightarrow> P c | None \<Rightarrow> False"
    by auto
  show "P root \<or> (is_container root
        \<and> (\<exists>i < length ks. case read_path h (get h root k) (take i ks) of Some c \<Rightarrow> P c | None \<Rightarrow> False))"
  proof (cases i)
    case 0
    with c show ?thesis by simp
  next
    case (Suc j)
    with i c show ?thesis by (auto split: if_splits)
  qed
next
  assume a: "P root \<or> (is_container root
        \<and> (\<exists>i < length ks. case read_path h (get h root k) (take i ks) of Some c \<Rightarrow> P c | None \<Rightarrow> False))"
  show "\<exists>i < length (k # ks). case read_path h root (take i (k # ks)) of Some c \<Rightarrow> P c | None \<Rightarrow> False"
  proof (cases "P root")
    case True
    then have "case read_path h root (take 0 (k # ks)) of Some c \<Rightarrow> P c | None \<Rightarrow> False" by simp
    then show ?thesis by (intro exI [of _ 0]) simp
  next
    case False
    with a obtain j where cont: "is_container root" and j: "j < length ks"
      and c: "case read_path h (get h root k) (take j ks) of Some c \<Rightarrow> P c | None \<Rightarrow> False"
      by auto
    from cont c have "case read_path h root (take (Suc j) (k # ks)) of Some c \<Rightarrow> P c | None \<Rightarrow> False"
      by simp
    with j show ?thesis by (intro exI [of _ "Suc j"]) simp
  qed
qed

lemma blocked_Cons:
  "blocked h root (k # ks) \<longleftrightarrow> \<not> is_container root \<or> blocked h (get h root k) ks"
  unfolding blocked_def reached_Cons [where P = "\<lambda>c. \<not> is_container c"] by auto

lemma uncopyable_Cons:
  "uncopyable h root (k # ks) \<longleftrightarrow>
     unspreadable root \<or> (is_container root \<and> uncopyable h (get h root k) ks)"
  unfolding uncopyable_def by (rule reached_Cons)

lemma writes_length_Cons:
  "ks \<noteq> [] \<Longrightarrow> writes_length h root (k # ks) \<longleftrightarrow> is_container root \<and> writes_length h (get h root k) ks"
  by (simp add: writes_length_def)

lemma writes_length_single: "writes_length h root [k] \<longleftrightarrow> k = ''length'' \<and> isArray root"
  by (auto simp: writes_length_def)

lemma writes_length_unblocked: "writes_length h root ks \<Longrightarrow> \<not> blocked h root ks"
proof (induction ks arbitrary: root)
  case Nil
  then show ?case by (simp add: blocked_Nil)
next
  case (Cons k ks)
  show ?case
  proof (cases ks)
    case Nil
    with Cons.prems have "isArray root" by (simp add: writes_length_single)
    then have "is_container root" by (rule isArray_container)
    with Nil show ?thesis by (simp add: blocked_Cons blocked_Nil)
  next
    case (Cons k' ks')
    with Cons.prems have "is_container root" "writes_length h (get h root k) ks"
      by (simp_all add: writes_length_Cons)
    with Cons.IH show ?thesis by (simp add: blocked_Cons)
  qed
qed

subsection \<open>Copies and writes\<close>

lemma shallow_copy_cases:
  "is_container c \<Longrightarrow>
     (unspreadable c \<and> shallow_copy h c = Inl TypeError)
     \<or> (\<not> unspreadable c \<and> isArray c \<and> (\<exists>es. shallow_copy h c = Inr (Arr ArrayPrototype es [])))
     \<or> (\<not> unspreadable c \<and> \<not> isArray c
          \<and> shallow_copy h c = Inr (object_literal (own_entries c)))"
  by (auto simp: shallow_copy_def unspreadable_def)

lemma assign_Obj:
  "key \<noteq> ''__proto__'' \<Longrightarrow> assign h (Obj p kvs) key v = Inr (Obj p (AList.update key v kvs))"
  using accessor_key [of h "Obj p kvs" key] by (auto simp del: find_property.simps)


lemma assign_installs:
  assumes "key \<noteq> ''__proto__''" and "\<not> (isArray u \<and> key = ''length'')"
    and "(\<exists>p kvs. u = Obj p kvs) \<or> (\<exists>p es ps. u = Arr p es ps)"
  shows "\<exists>u'. assign h u key v = Inr u' \<and> is_container u' \<and> isArray u' = isArray u
           \<and> own_property h u' key = Some v \<and> get h u' key = v"
proof -
  from assms(3) consider (Obj) p kvs where "u = Obj p kvs" | (Arr) p es ps where "u = Arr p es ps"
    by blast
  then show ?thesis
  proof cases
    case Obj
    have "assign h u key v = Inr (Obj p (AList.update key v kvs))"
      unfolding Obj using assms(1) by (rule assign_Obj)
    then show ?thesis using Obj by (simp add: update_conv' get_def)
  next
    case Arr
    show ?thesis
    proof (cases "array_index key")
      case None
      from assms(1) have na: "find_property h (Arr p es ps) key \<noteq> ProtoAccessor"
        using accessor_key by blast
      with None assms(2) Arr show ?thesis by (auto simp: update_conv' get_def)
    next
      case (Some i)
      with Arr show ?thesis by (auto simp: get_def nth_append)
    qed
  qed
qed

lemma assign_proto_ok:
  assumes "(\<exists>p kvs. u = Obj p kvs) \<or> (\<exists>p es ps. u = Arr p es ps)"
  shows "\<exists>u'. assign h u ''__proto__'' v = Inr u' \<and> is_container u'"
  using assms by (auto simp: array_index_proto)

lemma assign_length:
  assumes "u = Arr p es ps"
  shows "to_length h v = NotALength \<Longrightarrow> assign h u ''length'' v = Inl RangeError"
    and "to_length h v = NoPrimitive \<Longrightarrow> assign h u ''length'' v = Inl TypeError"
    and "to_length h v = Length n \<Longrightarrow>
           \<exists>u'. assign h u ''length'' v = Inr u' \<and> is_container u' \<and> get h u' ''length'' = Num (int n)"
  using assms by (simp_all add: array_index_length get_def)

lemma assign_error:
  "assign h u key v = Inl e \<Longrightarrow> e = RangeError \<or> e = TypeError"
  by (cases u) (auto split: option.splits if_splits coercion.splits)

lemma shallow_copy_shape:
  assumes "is_container c" and "shallow_copy h c = Inr u"
  shows "(\<exists>kvs. u = object_literal kvs \<and> \<not> isArray c) \<or> (\<exists>es. u = Arr ArrayPrototype es [] \<and> isArray c)"
  using shallow_copy_cases [OF assms(1), of h] assms(2) by auto

lemma shallow_copy_error: "shallow_copy h c = Inl e \<Longrightarrow> e = TypeError"
  by (auto simp: shallow_copy_def split: if_splits)

lemma shallow_copy_ok:
  assumes "is_container c" and "\<not> unspreadable c"
  obtains u where "shallow_copy h c = Inr u"
    and "(\<exists>kvs. u = object_literal kvs) \<or> (\<exists>es. u = Arr ArrayPrototype es [])"
    and "isArray u = isArray c"
  using shallow_copy_cases [OF assms(1), of h] assms(2) by auto

lemma assign_copy_ok:
  assumes "(\<exists>kvs. u = object_literal kvs) \<or> (\<exists>es. u = Arr ArrayPrototype es [])"
    and "\<not> (isArray u \<and> key = ''length'')"
  shows "\<exists>u'. assign h u key v = Inr u' \<and> is_container u'"
proof (cases "key = ''__proto__''")
  case True
  from assms(1) have "(\<exists>p kvs. u = Obj p kvs) \<or> (\<exists>p es ps. u = Arr p es ps)" by auto
  from assign_proto_ok [OF this, of h v] True show ?thesis by simp
next
  case False
  from assms(1) have "(\<exists>p kvs. u = Obj p kvs) \<or> (\<exists>p es ps. u = Arr p es ps)" by auto
  from assign_installs [OF False assms(2) this, of h v] show ?thesis by auto
qed

lemma recursor_error:
  "recursor h current keys v = Inl e \<Longrightarrow>
     e = InvalidIntermediateError \<or> e = RangeError \<or> e = TypeError"
proof (induction keys arbitrary: current e)
  case Nil
  then show ?case by simp
next
  case (Cons k ks)
  then show ?case
    by (auto split: if_splits sum.splits dest: assign_error shallow_copy_error)
qed

lemma recursor_not_InvalidPath: "recursor h current keys v \<noteq> Inl InvalidPathError"
  using recursor_error [of h current keys v InvalidPathError]
  by (auto simp: InvalidPathError_def InvalidIntermediateError_def)

lemma unspreadable_container: "unspreadable c \<Longrightarrow> is_container c"
  by (simp add: unspreadable_def isArray_container)

lemma recursor_uncopyable: "uncopyable h root ks \<Longrightarrow> recursor h root ks v = Inl TypeError"
proof (induction ks arbitrary: root)
  case Nil
  then show ?case by (simp add: uncopyable_Nil)
next
  case (Cons k ks)
  show ?case
  proof (cases "unspreadable root")
    case True
    then have "is_container root" by (rule unspreadable_container)
    with shallow_copy_cases [OF this, of h] True show ?thesis by auto
  next
    case False
    with Cons.prems have cont: "is_container root" and u: "uncopyable h (get h root k) ks"
      by (simp_all add: uncopyable_Cons)
    from shallow_copy_ok [OF cont False] obtain c where "shallow_copy h root = Inr c" by metis
    with cont Cons.IH [OF u] show ?thesis by simp
  qed
qed

lemma recursor_blocked:
  "blocked h root ks \<Longrightarrow> \<not> uncopyable h root ks \<Longrightarrow>
     recursor h root ks v = Inl InvalidIntermediateError"
proof (induction ks arbitrary: root)
  case Nil
  then show ?case by (simp add: blocked_Nil)
next
  case (Cons k ks)
  show ?case
  proof (cases "is_container root")
    case False
    then show ?thesis by simp
  next
    case True
    with Cons.prems have b: "blocked h (get h root k) ks" and ns: "\<not> unspreadable root"
      and nu: "\<not> uncopyable h (get h root k) ks"
      by (simp_all add: blocked_Cons uncopyable_Cons)
    from shallow_copy_ok [OF True ns] obtain c where "shallow_copy h root = Inr c" by metis
    with True Cons.IH [OF b nu] show ?thesis by simp
  qed
qed

lemma recursor_unblocked:
  assumes "\<not> blocked h root ks" and "\<not> uncopyable h root ks"
  shows "recursor h root ks v = Inl RangeError \<longleftrightarrow> writes_length h root ks \<and> to_length h v = NotALength"
    and "recursor h root ks v = Inl TypeError \<longleftrightarrow> writes_length h root ks \<and> to_length h v = NoPrimitive"
    and "(\<exists>r. recursor h root ks v = Inr r) \<longleftrightarrow>
           \<not> (writes_length h root ks \<and> (to_length h v = NotALength \<or> to_length h v = NoPrimitive))"
    and "recursor h root ks v \<noteq> Inl InvalidIntermediateError"
proof -
  have "(recursor h root ks v = Inl RangeError \<longleftrightarrow> writes_length h root ks \<and> to_length h v = NotALength)
      \<and> (recursor h root ks v = Inl TypeError \<longleftrightarrow> writes_length h root ks \<and> to_length h v = NoPrimitive)
      \<and> ((\<exists>r. recursor h root ks v = Inr r) \<longleftrightarrow>
           \<not> (writes_length h root ks \<and> (to_length h v = NotALength \<or> to_length h v = NoPrimitive)))
      \<and> recursor h root ks v \<noteq> Inl InvalidIntermediateError"
    using assms
  proof (induction ks arbitrary: root)
    case Nil
    then show ?case by (simp add: writes_length_def)
  next
    case (Cons k ks)
    from Cons.prems have cont: "is_container root" and nb: "\<not> blocked h (get h root k) ks"
      and ns: "\<not> unspreadable root" and nu: "\<not> uncopyable h (get h root k) ks"
      by (auto simp: blocked_Cons uncopyable_Cons)
    from shallow_copy_ok [OF cont ns] obtain u where copy: "shallow_copy h root = Inr u"
      and shape: "(\<exists>kvs. u = object_literal kvs) \<or> (\<exists>es. u = Arr ArrayPrototype es [])"
      and arr: "isArray u = isArray root" by metis
    show ?case
    proof (cases ks)
      case Nil
      then have rec: "recursor h root (k # ks) v = assign h u k v"
        using cont copy by simp
      have wl: "writes_length h root (k # ks) \<longleftrightarrow> k = ''length'' \<and> isArray root"
        using Nil by (simp add: writes_length_single)
      show ?thesis
      proof (cases "isArray root \<and> k = ''length''")
        case True
        then have k: "k = ''length''" and "isArray u" using arr by simp_all
        with shape obtain es where u: "u = Arr ArrayPrototype es []" by auto
        show ?thesis
        proof (cases "to_length h v")
          case (Length n)
          with assign_length(3) [OF u, of h v n] show ?thesis
            unfolding rec wl using True k by (auto simp: InvalidIntermediateError_def)
        next
          case NotALength
          with assign_length(1) [OF u, of h v] show ?thesis
            unfolding rec wl using True k by (auto simp: InvalidIntermediateError_def)
        next
          case NoPrimitive
          with assign_length(2) [OF u, of h v] show ?thesis
            unfolding rec wl using True k by (auto simp: InvalidIntermediateError_def)
        qed
      next
        case False
        then have "\<not> (isArray u \<and> k = ''length'')" using arr by simp
        from assign_copy_ok [OF shape this, of h v] obtain u' where "assign h u k v = Inr u'"
          by auto
        with False show ?thesis unfolding rec wl by auto
      qed
    next
      case (Cons k' ks')
      have notlen: "\<not> (isArray u \<and> k = ''length'')"
      proof
        assume "isArray u \<and> k = ''length''"
        then have "\<not> is_container (get h root k)" using arr by (simp add: get_length_not_container)
        then have "blocked h (get h root k) ks" using Cons by (simp add: blocked_Cons)
        with nb show False by simp
      qed
      have wl: "writes_length h root (k # ks) = writes_length h (get h root k) ks"
        using cont Cons by (simp add: writes_length_Cons)
      note IH = Cons.IH [OF nb nu]
      show ?thesis
      proof (cases "recursor h (get h root k) ks v")
        case (Inl e)
        then have rec: "recursor h root (k # ks) v = Inl e" using cont copy by simp
        from IH show ?thesis unfolding rec wl Inl by simp
      next
        case (Inr x)
        from assign_copy_ok [OF shape notlen, of h x] obtain u' where u': "assign h u k x = Inr u'"
          by auto
        with Inr have rec: "recursor h root (k # ks) v = Inr u'" using cont copy by simp
        from IH show ?thesis unfolding rec wl Inr by simp
      qed
    qed
  qed
  then show "recursor h root ks v = Inl RangeError \<longleftrightarrow> writes_length h root ks \<and> to_length h v = NotALength"
    and "recursor h root ks v = Inl TypeError \<longleftrightarrow> writes_length h root ks \<and> to_length h v = NoPrimitive"
    and "(\<exists>r. recursor h root ks v = Inr r) \<longleftrightarrow>
           \<not> (writes_length h root ks \<and> (to_length h v = NotALength \<or> to_length h v = NoPrimitive))"
    and "recursor h root ks v \<noteq> Inl InvalidIntermediateError"
    by simp_all
qed

lemma recursor_installs:
  "recursor h root ks v = Inr r \<Longrightarrow> ks \<noteq> [] \<Longrightarrow> ''__proto__'' \<notin> set ks \<Longrightarrow>
     is_container r \<and>
     (\<exists>c'. read_path h r (butlast ks) = Some c' \<and> is_container c'
        \<and> (if writes_length h root ks
            then \<exists>n. to_length h v = Length n \<and> get h c' (last ks) = Num (int n)
            else own_property h c' (last ks) = Some v \<and> get h c' (last ks) = v))"
proof (induction ks arbitrary: root r)
  case Nil
  then show ?case by simp
next
  case (Cons k ks)
  from Cons.prems have cont: "is_container root" by (auto split: if_splits)
  from Cons.prems cont obtain u where copy: "shallow_copy h root = Inr u"
    by (auto split: sum.splits)
  from shallow_copy_shape [OF cont copy]
  have shape: "(\<exists>p kvs. u = Obj p kvs) \<or> (\<exists>p es ps. u = Arr p es ps)"
    and arr: "isArray u = isArray root" by auto
  from Cons.prems have k: "k \<noteq> ''__proto__''" and ks: "''__proto__'' \<notin> set ks" by auto
  show ?case
  proof (cases ks)
    case Nil
    with Cons.prems cont copy have a: "assign h u k v = Inr r" by simp
    show ?thesis
    proof (cases "isArray root \<and> k = ''length''")
      case True
      with arr shape obtain p es ps where u: "u = Arr p es ps" by auto
      show ?thesis
      proof (cases "to_length h v")
        case (Length n)
        with assign_length(3) [OF u, of h v n] a True show ?thesis
          using Nil by (auto simp: writes_length_single)
      next
        case NotALength
        with assign_length(1) [OF u, of h v] a True show ?thesis by simp
      next
        case NoPrimitive
        with assign_length(2) [OF u, of h v] a True show ?thesis by simp
      qed
    next
      case False
      then have "\<not> (isArray u \<and> k = ''length'')" using arr by simp
      from assign_installs [OF k this shape, of h v] a False show ?thesis
        using Nil by (auto simp: writes_length_single)
    qed
  next
    case (Cons k' ks')
    then have ne: "ks \<noteq> []" by simp
    from Cons.prems(1) cont copy obtain x where x: "recursor h (get h root k) ks v = Inr x"
      and a: "assign h u k x = Inr r"
      by (auto split: sum.splits)
    have notlen: "\<not> (isArray u \<and> k = ''length'')"
    proof
      assume "isArray u \<and> k = ''length''"
      then have "\<not> is_container (get h root k)" using arr by (simp add: get_length_not_container)
      with x Cons show False by simp
    qed
    from assign_installs [OF k notlen shape, of h x] a have r: "is_container r" "get h r k = x"
      by auto
    have wl: "writes_length h root (k # ks) = writes_length h (get h root k) ks"
      using cont ne by (simp add: writes_length_Cons)
    from Cons.IH [OF x ne ks] r ne show ?thesis unfolding wl by auto
  qed
qed

lemma recursor_reads_back:
  assumes "recursor h root ks v = Inr r" and "ks \<noteq> []" and "''__proto__'' \<notin> set ks"
  shows "if writes_length h root ks
         then \<exists>n. to_length h v = Length n \<and> read_path h r ks = Some (Num (int n))
         else read_path h r ks = Some v"
proof -
  from recursor_installs [OF assms] obtain c' where c': "read_path h r (butlast ks) = Some c'"
    "is_container c'"
    and f: "if writes_length h root ks
            then \<exists>n. to_length h v = Length n \<and> get h c' (last ks) = Num (int n)
            else own_property h c' (last ks) = Some v \<and> get h c' (last ks) = v"
    by blast
  have "read_path h r ks = read_path h r (butlast ks @ [last ks])" using assms(2) by simp
  also have "\<dots> = Some (get h c' (last ks))" using c' by (simp add: read_path_append)
  finally show ?thesis using f by (auto split: if_splits)
qed


subsection \<open>pick\<close>




subsection \<open>Keys that a plain parent does not have\<close>


subsection \<open>Plain data\<close>

text \<open>Reading a property of plain data yields plain data, a built-in prototype or a
  built-in method; no array met on any path from plain data lacks the array iterator.\<close>

lemma plain_get: "plain v \<Longrightarrow> plain (get h v k)"
proof (cases v)
  case (Obj p kvs)
  assume "plain v"
  with Obj have p: "p = ObjectPrototype" and vs: "\<And>w. w \<in> snd ` set kvs \<Longrightarrow> plain w" by auto
  show ?thesis
  proof (cases "map_of kvs k")
    case None
    with Obj p show ?thesis
      by (auto simp: get_def object_prototype_slot_def split: option.splits)
  next
    case (Some w)
    then have "(k, w) \<in> set kvs" by (rule map_of_SomeD)
    then have "w \<in> snd ` set kvs" by force
    with vs Some Obj show ?thesis by (simp add: get_def)
  qed
next
  case (Arr p es ps)
  assume "plain v"
  with Arr have p: "p = ArrayPrototype" and ns: "\<And>w. w \<in> snd ` set ps \<Longrightarrow> plain w"
    and els: "\<And>w. Some w \<in> set es \<Longrightarrow> plain w" by (auto split: option.splits)
  show ?thesis
  proof (cases "own_property h (Arr p es ps) k")
    case None
    with Arr p show ?thesis
      by (auto simp: get_def object_prototype_slot_def split: option.splits)
  next
    case (Some w)
    have "plain w"
    proof (cases "array_index k")
      case None
      with Some have "w = Num (int (length es)) \<or> map_of ps k = Some w" by (auto split: if_splits)
      then show ?thesis
      proof
        assume "map_of ps k = Some w"
        then have "(k, w) \<in> set ps" by (rule map_of_SomeD)
        then have "w \<in> snd ` set ps" by force
        then show ?thesis by (rule ns)
      qed simp
    next
      case (Some i)
      with \<open>own_property h (Arr p es ps) k = Some w\<close> have "i < length es" "es ! i = Some w"
        by (auto split: if_splits)
      then have "Some w \<in> set es" by (metis nth_mem)
      then show ?thesis by (rule els)
    qed
    with Some Arr show ?thesis by (simp add: get_def)
  qed
qed (auto simp: get_def object_prototype_slot_def split: option.splits)

lemma plain_spreadable: "plain v \<Longrightarrow> \<not> unspreadable v"
  by (cases v) (auto simp: unspreadable_def)

lemma plain_copyable: "plain root \<Longrightarrow> \<not> uncopyable h root ks"
proof (induction ks arbitrary: root)
  case Nil
  show ?case by (rule uncopyable_Nil)
next
  case (Cons k ks)
  from Cons.prems have "plain (get h root k)" by (rule plain_get)
  with Cons.IH Cons.prems show ?case by (simp add: uncopyable_Cons plain_spreadable)
qed

subsection \<open>The store\<close>

lemma unchanged_refl: "unchanged st st"
  by (simp add: unchanged_def)

lemma unchanged_trans: "unchanged st st1 \<Longrightarrow> unchanged st1 st2 \<Longrightarrow> unchanged st st2"
  by (auto simp: unchanged_def)

lemma unchanged_append: "unchanged st (st @ cs)"
  by (simp add: unchanged_def nth_append)

lemma unchanged_update: "unchanged st st' \<Longrightarrow> length st \<le> a \<Longrightarrow> unchanged st (st'[a := c])"
  by (auto simp: unchanged_def)

lemma recursor_st_unchanged:
  "recursor_st h st current keys v = (r, st') \<Longrightarrow> unchanged st st'"
proof (induction keys arbitrary: st current r st')
  case Nil
  then show ?case by (simp add: unchanged_refl)
next
  case (Cons k ks)
  show ?case
  proof (cases "deref st current")
    case None
    with Cons.prems show ?thesis by (simp add: unchanged_refl)
  next
    case (Some c)
    define st1 where "st1 = st @ [cell_copy c]"
    obtain rr st2 where rec: "recursor_st h st1 (get_st st1 current k) ks v = (rr, st2)"
      by (cases "recursor_st h st1 (get_st st1 current k) ks v")
    from Cons.IH [OF rec] have "unchanged st1 st2" .
    with unchanged_append [of st "[cell_copy c]"] have u: "unchanged st st2"
      unfolding st1_def by (rule unchanged_trans)
    from Cons.prems Some rec have "st' = st2 \<or> (\<exists>c'. st' = st2[length st := c'])"
      by (auto simp: st1_def Let_def split: sum.splits)
    with u show ?thesis by (auto intro: unchanged_update)
  qed
qed

lemma merge_loop_st_unchanged:
  assumes IH: "\<And>st a b r st'. merge_st call fuel st a b = (r, st') \<Longrightarrow> unchanged st st'"
  shows "merge_loop_st call fuel st result b keys = (ok, st') \<Longrightarrow> unchanged_except result st st'"
proof (induction keys arbitrary: st)
  case Nil
  then show ?case by (simp add: unchanged_except_def)
next
  case (Cons key keys)
  show ?case
  proof (cases "call_hasOwnProperty_st call st b key")
    case (Inl e)
    with Cons.prems show ?thesis by (simp add: unchanged_except_def)
  next
    case (Inr own)
    show ?thesis
    proof (cases own)
      case False
      with Inr Cons show ?thesis by simp
    next
      case True
      show ?thesis
      proof (cases "\<exists>kvs. deref st (get_st st b key) = Some (CObj kvs)")
        case False
        define st3 where
          "st3 = st[result := CObj (AList.update key (get_st st b key) (cell_entries (st ! result)))]"
        from False True Inr Cons.prems have "merge_loop_st call fuel st3 result b keys = (ok, st')"
          by (auto simp: st3_def split: option.splits cell.splits)
        from Cons.IH [OF this] show ?thesis
          by (auto simp: unchanged_except_def st3_def)
      next
        case rec: True
        define cur where "cur = cell_get (st ! result) key"
        define arg where "arg = (if truthy_st cur then cur else SRef (length st))"
        define st1 where "st1 = (if truthy_st cur then st else st @ [CObj []])"
        have u1: "unchanged st st1"
          by (simp add: st1_def unchanged_refl unchanged_append)
        obtain r st2 where m: "merge_st call fuel st1 arg (get_st st1 b key) = (r, st2)"
          by (cases "merge_st call fuel st1 arg (get_st st1 b key)")
        from IH [OF m] u1 have u2: "unchanged st st2" by (rule unchanged_trans [rotated])
        show ?thesis
        proof (cases r)
          case (Returned x)
          define st3 where
            "st3 = st2[result := CObj (AList.update key x (cell_entries (st2 ! result)))]"
          from Cons.prems True Inr rec m Returned
          have "merge_loop_st call fuel st3 result b keys = (ok, st')"
            by (auto simp: cur_def arg_def st1_def st3_def Let_def split: if_splits)
          from Cons.IH [OF this] u2 show ?thesis
            by (auto simp: unchanged_except_def unchanged_def st3_def)
        next
          case (Threw e)
          with Cons.prems True Inr rec m have "st' = st2"
            by (auto simp: cur_def arg_def st1_def Let_def split: if_splits)
          with u2 show ?thesis by (simp add: unchanged_except_def unchanged_def)
        next
          case OutOfFuel
          with Cons.prems True Inr rec m have "st' = st2"
            by (auto simp: cur_def arg_def st1_def Let_def split: if_splits)
          with u2 show ?thesis by (simp add: unchanged_except_def unchanged_def)
        qed
      qed
    qed
  qed
qed

lemma merge_st_unchanged: "merge_st call fuel st a b = (r, st') \<Longrightarrow> unchanged st st'"
proof (induction fuel arbitrary: st a b r st')
  case 0
  then show ?case by (simp add: unchanged_refl)
next
  case (Suc fuel)
  define st1 where "st1 = st @ [CObj (own_entries_st st a)]"
  obtain ok st2 where
    l: "merge_loop_st call fuel st1 (length st) b (map fst (own_entries_st st1 b)) = (ok, st2)"
    by (cases "merge_loop_st call fuel st1 (length st) b (map fst (own_entries_st st1 b))")
  from Suc.prems l have st': "st' = st2"
    by (auto simp: st1_def Let_def split: outcome.splits)
  from merge_loop_st_unchanged [OF Suc.IH l] have "unchanged_except (length st) st1 st2" .
  then show ?case unfolding st' st1_def
    by (auto simp: unchanged_except_def unchanged_def nth_append)
qed

lemma snapshot_unchanged:
  assumes "unchanged st st'" and "closed st"
  shows "in_store st v \<Longrightarrow> snapshot n st' v = snapshot n st v"
proof (induction n arbitrary: v)
  case 0
  then show ?case by (cases v) simp_all
next
  case (Suc n)
  show ?case
  proof (cases v)
    case (SRef a)
    with Suc.prems have a: "a < length st" by simp
    with assms(1) have a': "a < length st'" and same: "st' ! a = st ! a"
      by (auto simp: unchanged_def)
    have inside: "in_store st w" if "w \<in> cell_values (st ! a)" for w
      using assms(2) a that by (auto simp: closed_def)
    show ?thesis
    proof (cases "st ! a")
      case (CObj kvs)
      have named: "in_store st w" if "(k, w) \<in> set kvs" for k w
        using inside [of w] CObj that by force
      have eq: "map (\<lambda>(k, v). map_option (Pair k) (snapshot n st' v)) kvs
          = map (\<lambda>(k, v). map_option (Pair k) (snapshot n st v)) kvs"
        by (intro map_cong) (auto simp: Suc.IH [OF named])
      from SRef a a' same CObj show ?thesis by (simp add: eq)
    next
      case (CArr es ps)
      have named: "in_store st w" if "(k, w) \<in> set ps" for k w
        using inside [of w] CArr that by force
      have elems: "in_store st w" if "Some w \<in> set es" for w
        using inside [of w] CArr that by simp
      have eq1: "map (\<lambda>(k, v). map_option (Pair k) (snapshot n st' v)) ps
          = map (\<lambda>(k, v). map_option (Pair k) (snapshot n st v)) ps"
        by (intro map_cong) (auto simp: Suc.IH [OF named])
      have eq2: "map (\<lambda>e. case e of None \<Rightarrow> Some None
                                     | Some v \<Rightarrow> map_option Some (snapshot n st' v)) es
          = map (\<lambda>e. case e of None \<Rightarrow> Some None
                                     | Some v \<Rightarrow> map_option Some (snapshot n st v)) es"
        by (intro map_cong) (auto simp: Suc.IH [OF elems] split: option.splits)
      from SRef a a' same CArr show ?thesis by (simp add: eq1 eq2 cong: option.case_cong)
    qed
  qed simp_all
qed

section \<open>pick keeps a key whose value is undefined\<close>




text \<open>\<^verbatim>\<open>pick\<close> goes by \<^verbatim>\<open>key in obj\<close>, so it copies what the source inherits as well:
  \<^verbatim>\<open>pick({}, ['toString'])\<close> is an object that holds the built-in function as a property
  of its own.\<close>

lemma pick_copies_inherited:
  "pick example_host (object_literal []) [''toString''] = Inr (object_literal [(''toString'', Func 5)])"
  by (simp add: pick_def has_property_def get_def object_prototype_slot_def example_host_def)

section \<open>What merge returns\<close>

text \<open>
  C1 says that \<^verbatim>\<open>merge(a, b)\<close> returns, for every pair of records, a record whose keys
  are those of \<open>a\<close> and of \<open>b\<close>.  The code does not return for every pair: when \<open>b\<close> has
  a key named \<^verbatim>\<open>hasOwnProperty\<close> whose value is not a function, the call
  \<^verbatim>\<open>b.hasOwnProperty(key)\<close> in the loop finds that value and the host throws
  \<^verbatim>\<open>TypeError\<close>.  Here \<open>a\<close> is \<^verbatim>\<open>{a: 1}\<close> and \<open>b\<close> is \<^verbatim>\<open>{b: 2, hasOwnProperty: 1}\<close>.
\<close>

theorem merge_throws_when_hasOwnProperty_is_a_key:
  "well_formed (object_literal [(''a'', Num 1)])
   \<and> well_formed (object_literal [(''b'', Num 2), (''hasOwnProperty'', Num 1)])
   \<and> merge example_host example_caller (object_literal [(''a'', Num 1)])
        (object_literal [(''b'', Num 2), (''hasOwnProperty'', Num 1)])
     = Inl TypeError"
  by (simp add: merge.simps call_hasOwnProperty_def index_keys_first_def array_index_def is_digit_def)

text \<open>
  Where no such key is in the way the code does what C1 describes: nested records are
  merged, a scalar or an array of \<open>b\<close> replaces what \<open>a\<close> has, and a key of one side
  only is kept.
\<close>

lemma merge_union_and_override_example:
  "merge example_host example_caller
     (object_literal [(''a'', object_literal [(''x'', Num 1)]), (''b'', array_literal [Num 1, Num 2])])
     (object_literal [(''a'', object_literal [(''y'', Num 2)]), (''b'', array_literal [Num 3]),
                      (''c'', Num 3)])
   = Inr (object_literal [(''a'', object_literal [(''x'', Num 1), (''y'', Num 2)]),
                          (''b'', array_literal [Num 3]), (''c'', Num 3)])"
  by (simp add: merge.simps call_hasOwnProperty_def index_keys_first_def array_index_def is_digit_def
      example_host_def object_prototype_slot_def has_own_property_def get_def is_record_def
      or_empty_def)

section \<open>merge treats a falsy value as a missing one\<close>

text \<open>
  C9 says that, for every pair of records with a falsy value under \<open>k\<close> in \<open>a\<close> and a
  plain object under \<open>k\<close> in \<open>b\<close>, the result of \<^verbatim>\<open>merge(a, b)\<close> holds under \<open>k\<close> the merge
  of the empty record with \<open>b\<close>'s value.  With \<open>a\<close> \<^verbatim>\<open>{k: 0}\<close> and \<open>b\<close>
  \<^verbatim>\<open>{k: {y: 2}, hasOwnProperty: 1}\<close> there is no result: the call
  \<^verbatim>\<open>b.hasOwnProperty('k')\<close> throws \<^verbatim>\<open>TypeError\<close>, while the merge of the empty record with
  \<^verbatim>\<open>{y: 2}\<close> returns.
\<close>

theorem merge_over_falsy_value_throws:
  "own_property example_host (object_literal [(''k'', Num 0)]) ''k'' = Some (Num 0)
   \<and> \<not> truthy (Num 0)
   \<and> own_property example_host
        (object_literal [(''k'', object_literal [(''y'', Num 2)]), (''hasOwnProperty'', Num 1)]) ''k''
       = Some (object_literal [(''y'', Num 2)])
   \<and> is_record (object_literal [(''y'', Num 2)])
   \<and> merge example_host example_caller (object_literal [(''k'', Num 0)])
        (object_literal [(''k'', object_literal [(''y'', Num 2)]), (''hasOwnProperty'', Num 1)])
       = Inl TypeError
   \<and> merge example_host example_caller (object_literal []) (object_literal [(''y'', Num 2)])
       = Inr (object_literal [(''y'', Num 2)])"
  by (simp add: merge.simps call_hasOwnProperty_def index_keys_first_def array_index_def is_digit_def
      example_host_def object_prototype_slot_def has_own_property_def get_def is_record_def)

text \<open>Where no such key is in the way a falsy value of \<open>a\<close> is discarded as C9 says:
  \<^verbatim>\<open>merge({k: 0}, {k: {y: 2}})\<close> is \<^verbatim>\<open>{k: {y: 2}}\<close>.\<close>

lemma merge_discards_falsy_example:
  "merge example_host example_caller (object_literal [(''k'', Num 0)])
     (object_literal [(''k'', object_literal [(''y'', Num 2)])])
   = Inr (object_literal [(''k'', object_literal [(''y'', Num 2)])])"
  by (simp add: merge.simps call_hasOwnProperty_def index_keys_first_def array_index_def is_digit_def
      example_host_def object_prototype_slot_def has_own_property_def get_def is_record_def
      or_empty_def)

section \<open>merge is idempotent\<close>

text \<open>
  C7 says that \<^verbatim>\<open>merge(a, a)\<close> is deeply equal to \<open>a\<close> for every record \<open>a\<close>.  For the
  record \<^verbatim>\<open>{hasOwnProperty: 1}\<close> the call throws \<^verbatim>\<open>TypeError\<close> instead.
\<close>

theorem merge_with_itself_throws:
  "well_formed (object_literal [(''hasOwnProperty'', Num 1)])
   \<and> merge example_host example_caller (object_literal [(''hasOwnProperty'', Num 1)])
        (object_literal [(''hasOwnProperty'', Num 1)])
     = Inl TypeError"
  by (simp add: merge.simps call_hasOwnProperty_def index_keys_first_def array_index_def is_digit_def)

text \<open>Where no such key is in the way the merge of a record with itself is the record:
  \<^verbatim>\<open>merge(a, a)\<close> for \<^verbatim>\<open>{a: {x: 1}, c: [1]}\<close>.\<close>

lemma merge_idempotent_example:
  "merge example_host example_caller
     (object_literal [(''a'', object_literal [(''x'', Num 1)]), (''c'', array_literal [Num 1])])
     (object_literal [(''a'', object_literal [(''x'', Num 1)]), (''c'', array_literal [Num 1])])
   = Inr (object_literal [(''a'', object_literal [(''x'', Num 1)]), (''c'', array_literal [Num 1])])"
  by (simp add: merge.simps call_hasOwnProperty_def index_keys_first_def array_index_def is_digit_def
      example_host_def object_prototype_slot_def has_own_property_def get_def is_record_def
      or_empty_def)

section \<open>pick and omit are complementary\<close>

text \<open>
  C5 says that \<^verbatim>\<open>merge(pick(r, K), omit(r, K))\<close> is deeply equal to \<open>r\<close> for every record
  \<open>r\<close> and every list \<open>K\<close> of keys of \<open>r\<close>.  For \<open>r\<close> \<^verbatim>\<open>{x: 2, hasOwnProperty: 1}\<close> and
  \<open>K\<close> \<^verbatim>\<open>['x']\<close>, \<^verbatim>\<open>pick\<close> returns \<^verbatim>\<open>{x: 2}\<close> and \<^verbatim>\<open>omit\<close> returns
  \<^verbatim>\<open>{hasOwnProperty: 1}\<close>, and merging the second into the first throws \<^verbatim>\<open>TypeError\<close>.
\<close>

theorem merge_of_pick_and_omit_throws:
  "well_formed (object_literal [(''x'', Num 2), (''hasOwnProperty'', Num 1)])
   \<and> set [''x''] \<subseteq> fst ` set [(''x'', Num 2), (''hasOwnProperty'', Num 1)]
   \<and> pick example_host (object_literal [(''x'', Num 2), (''hasOwnProperty'', Num 1)]) [''x'']
       = Inr (object_literal [(''x'', Num 2)])
   \<and> omit example_host (object_literal [(''x'', Num 2), (''hasOwnProperty'', Num 1)]) [''x'']
       = object_literal [(''hasOwnProperty'', Num 1)]
   \<and> merge example_host example_caller (object_literal [(''x'', Num 2)])
        (omit example_host (object_literal [(''x'', Num 2), (''hasOwnProperty'', Num 1)]) [''x''])
     = Inl TypeError"
  by (simp add: merge.simps pick_def omit_def call_hasOwnProperty_def index_keys_first_def
      array_index_def is_digit_def has_property_def get_def object_prototype_slot_def
      example_host_def)

text \<open>Where no such key is in the way the two parts merge into the record they came
  from.\<close>

lemma pick_omit_complement_example:
  "pick example_host
     (object_literal [(''a'', Num 1), (''b'', object_literal [(''x'', Null)]), (''c'', Num 3)])
     [''c'', ''a'']
   = Inr (object_literal [(''c'', Num 3), (''a'', Num 1)])
   \<and> merge example_host example_caller (object_literal [(''c'', Num 3), (''a'', Num 1)])
     (omit example_host
        (object_literal [(''a'', Num 1), (''b'', object_literal [(''x'', Null)]), (''c'', Num 3)])
        [''c'', ''a''])
   = Inr (object_literal [(''c'', Num 3), (''a'', Num 1), (''b'', object_literal [(''x'', Null)])])"
  by (simp add: merge.simps pick_def omit_def call_hasOwnProperty_def index_keys_first_def
      array_index_def is_digit_def has_property_def get_def object_prototype_slot_def
      example_host_def has_own_property_def is_record_def or_empty_def)

section \<open>Empty segments are keys like any other\<close>



text \<open>The same with a leading and with a trailing dot: \<^verbatim>\<open>set('.x', {'': {}}, 1)\<close> and
  \<^verbatim>\<open>set('a.', {a: {x: 1}}, 2)\<close>.\<close>

lemma set_leading_and_trailing_dot:
  "set_path example_host ''.x'' (object_literal [([], object_literal [])]) (Num 1)
     = Inr (object_literal [([], object_literal [(''x'', Num 1)])])
   \<and> set_path example_host ''a.'' (object_literal [(''a'', object_literal [(''x'', Num 1)])]) (Num 2)
     = Inr (object_literal [(''a'', object_literal [(''x'', Num 1), ([], Num 2)])])"
  by (simp add: set_path_def shallow_copy_def index_keys_first_def array_index_def is_digit_def
      get_def object_prototype_slot_def example_host_def)

section \<open>The failures of set\<close>

text \<open>
  C3, as stated, fails: the failures with the two messages of \<^verbatim>\<open>set\<close> are not the only
  ones.  Writing \<open>-1\<close> to the \<^verbatim>\<open>length\<close> of an array makes the host throw
  \<^verbatim>\<open>RangeError\<close>, although the path is not empty and no value on the way is a primitive
  or \<^verbatim>\<open>null\<close>.
\<close>

theorem set_length_range_error:
  "set_path example_host ''length'' (array_literal [Num 1, Num 2, Num 3]) (Num (- 1)) = Inl RangeError
   \<and> ''length'' \<noteq> []
   \<and> \<not> blocked example_host (array_literal [Num 1, Num 2, Num 3]) (split_dot ''length'')
   \<and> RangeError \<noteq> InvalidPathError \<and> RangeError \<noteq> InvalidIntermediateError"
  by (simp add: set_path_def shallow_copy_def array_index_length blocked_Cons blocked_Nil
      InvalidPathError_def InvalidIntermediateError_def)

text \<open>
  C3, amended.  \<^verbatim>\<open>set\<close> fails with the empty-path error exactly when the path string is
  empty.  For a non-empty path, read the segments from the root as the host reads
  properties, inherited ones included (so the segment \<^verbatim>\<open>__proto__\<close> leads to the
  prototype).  \<^verbatim>\<open>set\<close> fails with \<^verbatim>\<open>TypeError\<close> exactly when an array reached before the
  last segment (the root included) does not inherit from \<^verbatim>\<open>Array.prototype\<close> and so
  cannot be spread, or when the last segment is \<^verbatim>\<open>length\<close>, its parent is an array and
  the value has no primitive value; with the intermediate-value error exactly when
  there is no such array and some value reached before the last segment (the root
  included) is not an array or object (a primitive, \<^verbatim>\<open>null\<close> or a function); with
  \<^verbatim>\<open>RangeError\<close> exactly when neither is the case, the last segment is \<^verbatim>\<open>length\<close>, its
  parent is an array and the value does not convert to an array length; and it returns
  a new structure in every other case.  There is no further failure.  In plain data
  every array can be spread (\<open>plain_copyable\<close>).
\<close>

theorem set_failure_modes:
  assumes "well_formed root"
  shows "(set_path h path root v = Inl InvalidPathError \<longleftrightarrow> path = [])
   \<and> (set_path h path root v = Inl InvalidIntermediateError \<longleftrightarrow>
        path \<noteq> [] \<and> blocked h root (split_dot path) \<and> \<not> uncopyable h root (split_dot path))
   \<and> (set_path h path root v = Inl RangeError \<longleftrightarrow>
        path \<noteq> [] \<and> \<not> uncopyable h root (split_dot path)
        \<and> writes_length h root (split_dot path) \<and> to_length h v = NotALength)
   \<and> (set_path h path root v = Inl TypeError \<longleftrightarrow>
        path \<noteq> []
        \<and> (uncopyable h root (split_dot path)
            \<or> (writes_length h root (split_dot path) \<and> to_length h v = NoPrimitive)))
   \<and> ((\<exists>r. set_path h path root v = Inr r) \<longleftrightarrow>
        path \<noteq> [] \<and> \<not> blocked h root (split_dot path) \<and> \<not> uncopyable h root (split_dot path)
        \<and> \<not> (writes_length h root (split_dot path)
              \<and> (to_length h v = NotALength \<or> to_length h v = NoPrimitive)))
   \<and> (\<forall>e. set_path h path root v = Inl e \<longrightarrow>
         e = InvalidPathError \<or> e = InvalidIntermediateError \<or> e = RangeError \<or> e = TypeError)"
proof (cases "path = []")
  case True
  then show ?thesis
    by (simp add: set_path_def InvalidPathError_def InvalidIntermediateError_def)
next
  case False
  then have s: "set_path h path root v = recursor h root (split_dot path) v"
    by (simp add: set_path_def)
  have kinds: "\<forall>e. recursor h root (split_dot path) v = Inl e \<longrightarrow>
         e = InvalidPathError \<or> e = InvalidIntermediateError \<or> e = RangeError \<or> e = TypeError"
    using recursor_error by blast
  show ?thesis
  proof (cases "uncopyable h root (split_dot path)")
    case True
    from recursor_uncopyable [OF True, of v] True False show ?thesis
      unfolding s by (simp add: InvalidPathError_def InvalidIntermediateError_def)
  next
    case nu: False
    show ?thesis
    proof (cases "blocked h root (split_dot path)")
      case True
      with writes_length_unblocked have "\<not> writes_length h root (split_dot path)" by blast
      with True False nu recursor_blocked [OF True nu, of v] show ?thesis
        unfolding s by (simp add: InvalidPathError_def InvalidIntermediateError_def)
    next
      case nb: False
      from recursor_unblocked [OF nb nu, of v] kinds False nb nu show ?thesis
        unfolding s by (simp add: recursor_not_InvalidPath)
    qed
  qed
qed

theorem set_failure_modes_witness:
  "well_formed (object_literal [(''a'', Num 42)])
   \<and> blocked example_host (object_literal [(''a'', Num 42)]) (split_dot ''a.b'')
   \<and> \<not> uncopyable example_host (object_literal [(''a'', Num 42)]) (split_dot ''a.b'')
   \<and> set_path example_host ''a.b'' (object_literal [(''a'', Num 42)]) (Num 100)
       = Inl InvalidIntermediateError"
  using set_failure_modes [of "object_literal [(''a'', Num 42)]" example_host "''a.b''" "Num 100"]
  by (simp add: blocked_Cons blocked_Nil uncopyable_Cons uncopyable_Nil unspreadable_def get_def)

text \<open>An array whose prototype is not an array cannot be spread:
  \<^verbatim>\<open>set('0', Object.setPrototypeOf([1], {}), 2)\<close> throws \<^verbatim>\<open>TypeError\<close>.\<close>

lemma set_unspreadable_array:
  "set_path h ''0'' (Arr (object_literal []) [Some (Num 1)] []) (Num 2) = Inl TypeError"
  by (simp add: set_path_def shallow_copy_def)

section \<open>Missing keys: the last one is created, an earlier one is an error\<close>




section \<open>Reading back what set wrote\<close>

text \<open>
  C6, as stated, fails: \<^verbatim>\<open>set('length', [1, 2, 3], null)\<close> returns the empty array,
  because the host converts \<^verbatim>\<open>null\<close> to the length \<open>0\<close>; reading \<^verbatim>\<open>length\<close> back yields
  the number \<open>0\<close> and not \<^verbatim>\<open>null\<close>.
\<close>

theorem set_length_reads_back_number:
  "set_path example_host ''length'' (array_literal [Num 1, Num 2, Num 3]) Null = Inr (array_literal [])
   \<and> read_path example_host (array_literal []) (split_dot ''length'') = Some (Num 0)
   \<and> Num 0 \<noteq> Null"
  by (simp add: set_path_def shallow_copy_def array_index_length get_def)

text \<open>
  C6, amended: when no segment of \<open>p\<close> is \<^verbatim>\<open>__proto__\<close> and \<^verbatim>\<open>set(p, root, v)\<close> returns,
  reading back along the segments of \<open>p\<close> from the returned structure yields \<open>v\<close>,
  unless the last segment is \<^verbatim>\<open>length\<close> and its parent is an array; then it yields the
  number that is the array's new length.  (A segment \<^verbatim>\<open>__proto__\<close> is written through
  the setter of that name and read through its getter: the value becomes the prototype
  when it is an object or \<^verbatim>\<open>null\<close> and is dropped otherwise.)
\<close>

theorem set_round_trip:
  assumes "set_path h path root v = Inr r" and "''__proto__'' \<notin> set (split_dot path)"
    and "well_formed root"
  shows "if writes_length h root (split_dot path)
         then \<exists>n. to_length h v = Length n \<and> read_path h r (split_dot path) = Some (Num (int n))
         else read_path h r (split_dot path) = Some v"
proof -
  from assms(1) have "recursor h root (split_dot path) v = Inr r"
    by (auto simp: set_path_def split: if_splits)
  then show ?thesis using split_dot_nonempty assms(2) by (rule recursor_reads_back)
qed

theorem set_round_trip_witness:
  "set_path example_host ''a.b'' (object_literal [(''a'', object_literal [(''b'', Num 1)])]) (Num 42)
     = Inr (object_literal [(''a'', object_literal [(''b'', Num 42)])])
   \<and> ''__proto__'' \<notin> set (split_dot ''a.b'')
   \<and> well_formed (object_literal [(''a'', object_literal [(''b'', Num 1)])])
   \<and> \<not> writes_length example_host (object_literal [(''a'', object_literal [(''b'', Num 1)])])
         (split_dot ''a.b'')
   \<and> read_path example_host (object_literal [(''a'', object_literal [(''b'', Num 42)])])
        (split_dot ''a.b'') = Some (Num 42)"
  using set_round_trip [of example_host "''a.b''"
      "object_literal [(''a'', object_literal [(''b'', Num 1)])]" "Num 42"
      "object_literal [(''a'', object_literal [(''b'', Num 42)])]"]
  by (simp add: set_path_def shallow_copy_def index_keys_first_def array_index_def is_digit_def
      get_def writes_length_def)

section \<open>set and merge do not change their arguments\<close>

text \<open>
  C4: whatever the store, the arguments and the outcome, a call of \<^verbatim>\<open>set\<close> (returning
  or throwing) and a call of \<^verbatim>\<open>merge\<close> (to any depth of recursion) leave every cell
  that existed before the call as it was: they write only to cells that they have
  allocated themselves.  So in a store without dangling references the snapshot of
  every value that existed before the call, taken to any depth, is the same after the
  call as before.
\<close>

theorem set_and_merge_leave_inputs_unchanged:
  "(set_st h st path root v = (r, st') \<longrightarrow>
      unchanged st st'
      \<and> (closed st \<longrightarrow> (\<forall>x n. in_store st x \<longrightarrow> snapshot n st' x = snapshot n st x)))
   \<and> (merge_st call fuel st a b = (r', st'') \<longrightarrow>
      unchanged st st''
      \<and> (closed st \<longrightarrow> (\<forall>x n. in_store st x \<longrightarrow> snapshot n st'' x = snapshot n st x)))"
proof (intro conjI impI allI)
  assume s: "set_st h st path root v = (r, st')"
  then show u: "unchanged st st'"
    by (auto simp: set_st_def unchanged_refl recursor_st_unchanged split: if_splits)
  fix x n assume "closed st" "in_store st x"
  with u show "snapshot n st' x = snapshot n st x" by (rule snapshot_unchanged)
next
  assume "merge_st call fuel st a b = (r', st'')"
  then show u: "unchanged st st''" by (rule merge_st_unchanged)
  fix x n assume "closed st" "in_store st x"
  with u show "snapshot n st'' x = snapshot n st x" by (rule snapshot_unchanged)
qed

theorem set_and_merge_leave_inputs_unchanged_witness:
  "set_st example_host_st [CObj [(''a'', SRef 1), (''c'', SNum 3)], CObj [(''b'', SNum 1)]]
       ''a.b'' (SRef 0) (SNum 42)
     = (Inr (SRef 2),
        [CObj [(''a'', SRef 1), (''c'', SNum 3)], CObj [(''b'', SNum 1)],
         CObj [(''a'', SRef 3), (''c'', SNum 3)], CObj [(''b'', SNum 42)]])
   \<and> merge_st example_caller_st 2
        [CObj [(''a'', SRef 1), (''c'', SNum 3)], CObj [(''b'', SNum 1)]] (SRef 0) (SRef 0)
     = (Returned (SRef 2),
        [CObj [(''a'', SRef 1), (''c'', SNum 3)], CObj [(''b'', SNum 1)],
         CObj [(''a'', SRef 3), (''c'', SNum 3)], CObj [(''b'', SNum 1)]])
   \<and> closed [CObj [(''a'', SRef 1), (''c'', SNum 3)], CObj [(''b'', SNum 1)]]
   \<and> in_store [CObj [(''a'', SRef 1), (''c'', SNum 3)], CObj [(''b'', SNum 1)]] (SRef 0)
   \<and> snapshot 2 [CObj [(''a'', SRef 1), (''c'', SNum 3)], CObj [(''b'', SNum 1)],
         CObj [(''a'', SRef 3), (''c'', SNum 3)], CObj [(''b'', SNum 42)]] (SRef 0)
       = Some (object_literal [(''a'', object_literal [(''b'', Num 1)]), (''c'', Num 3)])
   \<and> snapshot 2 [CObj [(''a'', SRef 1), (''c'', SNum 3)], CObj [(''b'', SNum 1)],
         CObj [(''a'', SRef 3), (''c'', SNum 3)], CObj [(''b'', SNum 42)]] (SRef 2)
       = Some (object_literal [(''a'', object_literal [(''b'', Num 42)]), (''c'', Num 3)])"
  using set_and_merge_leave_inputs_unchanged
    [where h = example_host_st
       and st = "[CObj [(''a'', SRef 1), (''c'', SNum 3)], CObj [(''b'', SNum 1)]]"
       and path = "''a.b''" and root = "SRef 0" and v = "SNum 42" and r = "Inr (SRef 2)"
       and st' = "[CObj [(''a'', SRef 1), (''c'', SNum 3)], CObj [(''b'', SNum 1)],
                   CObj [(''a'', SRef 3), (''c'', SNum 3)], CObj [(''b'', SNum 42)]]"
       and call = example_caller_st and fuel = 2 and a = "SRef 0" and b = "SRef 0"
       and r' = "Returned (SRef 2)"
       and st'' = "[CObj [(''a'', SRef 1), (''c'', SNum 3)], CObj [(''b'', SNum 1)],
                   CObj [(''a'', SRef 3), (''c'', SNum 3)], CObj [(''b'', SNum 1)]]"]
  by (simp add: set_st_def get_st_def has_own_st_def call_hasOwnProperty_st_def lookup_st_def
      closed_def numeral_2_eq_2)

text \<open>On this example the store and the trees agree: the snapshot of what \<^verbatim>\<open>set\<close> returns
  in the store is what \<^verbatim>\<open>set\<close> returns on the snapshot of its argument.\<close>

lemma set_on_trees_example:
  "set_path example_host ''a.b''
     (object_literal [(''a'', object_literal [(''b'', Num 1)]), (''c'', Num 3)]) (Num 42)
     = Inr (object_literal [(''a'', object_literal [(''b'', Num 42)]), (''c'', Num 3)])"
  by (simp add: set_path_def shallow_copy_def index_keys_first_def array_index_def is_digit_def
      get_def)

end
